theory Spec2Isabelle
  imports Complex_Main
begin

section \<open>JavaScript numbers\<close>

text \<open>
  The detector computes with JavaScript numbers. A number is modelled as a real
  (a finite value, with exact arithmetic: rounding and overflow are left out, and
  the two zeros are one), or one of the three non-finite values. The operators
  below follow the IEEE rules for the non-finite cases, so that a division by zero
  and a \<open>NaN\<close> sample are values of the model, as they are of the program.
\<close>

datatype jsnum = Num real | PosInf | NegInf | NaN

fun js_neg :: "jsnum \<Rightarrow> jsnum" where
  "js_neg (Num a) = Num (- a)"
| "js_neg PosInf = NegInf"
| "js_neg NegInf = PosInf"
| "js_neg NaN = NaN"

fun js_add :: "jsnum \<Rightarrow> jsnum \<Rightarrow> jsnum" where
  "js_add (Num a) (Num b) = Num (a + b)"
| "js_add (Num a) PosInf = PosInf"
| "js_add (Num a) NegInf = NegInf"
| "js_add PosInf (Num b) = PosInf"
| "js_add NegInf (Num b) = NegInf"
| "js_add PosInf PosInf = PosInf"
| "js_add NegInf NegInf = NegInf"
| "js_add PosInf NegInf = NaN"
| "js_add NegInf PosInf = NaN"
| "js_add NaN y = NaN"
| "js_add x NaN = NaN"

definition js_sub :: "jsnum \<Rightarrow> jsnum \<Rightarrow> jsnum" where
  "js_sub x y = js_add x (js_neg y)"

fun js_mul :: "jsnum \<Rightarrow> jsnum \<Rightarrow> jsnum" where
  "js_mul (Num a) (Num b) = Num (a * b)"
| "js_mul (Num a) PosInf = (if a = 0 then NaN else if 0 < a then PosInf else NegInf)"
| "js_mul (Num a) NegInf = (if a = 0 then NaN else if 0 < a then NegInf else PosInf)"
| "js_mul PosInf (Num b) = (if b = 0 then NaN else if 0 < b then PosInf else NegInf)"
| "js_mul NegInf (Num b) = (if b = 0 then NaN else if 0 < b then NegInf else PosInf)"
| "js_mul PosInf PosInf = PosInf"
| "js_mul NegInf NegInf = PosInf"
| "js_mul PosInf NegInf = NegInf"
| "js_mul NegInf PosInf = NegInf"
| "js_mul NaN y = NaN"
| "js_mul x NaN = NaN"

text \<open>
  Division never raises in JavaScript: a finite number divided by zero is an
  infinity, and \<open>0 / 0\<close> is \<open>NaN\<close>. Every divisor of the program is a length or a
  sum of magnitudes, so a zero divisor is the positive zero.
\<close>

fun js_div :: "jsnum \<Rightarrow> jsnum \<Rightarrow> jsnum" where
  "js_div (Num a) (Num b) =
     (if b = 0 then (if a = 0 then NaN else if 0 < a then PosInf else NegInf)
      else Num (a / b))"
| "js_div (Num a) PosInf = Num 0"
| "js_div (Num a) NegInf = Num 0"
| "js_div PosInf (Num b) = (if 0 \<le> b then PosInf else NegInf)"
| "js_div NegInf (Num b) = (if 0 \<le> b then NegInf else PosInf)"
| "js_div PosInf PosInf = NaN"
| "js_div NegInf NegInf = NaN"
| "js_div PosInf NegInf = NaN"
| "js_div NegInf PosInf = NaN"
| "js_div NaN y = NaN"
| "js_div x NaN = NaN"

fun js_sqrt :: "jsnum \<Rightarrow> jsnum" where
  "js_sqrt (Num a) = (if a < 0 then NaN else Num (sqrt a))"
| "js_sqrt PosInf = PosInf"
| "js_sqrt NegInf = NaN"
| "js_sqrt NaN = NaN"

fun js_abs :: "jsnum \<Rightarrow> jsnum" where
  "js_abs (Num a) = Num \<bar>a\<bar>"
| "js_abs PosInf = PosInf"
| "js_abs NegInf = PosInf"
| "js_abs NaN = NaN"

text \<open>Comparisons: every comparison with \<open>NaN\<close> is false.\<close>

fun js_gt :: "jsnum \<Rightarrow> jsnum \<Rightarrow> bool" where
  "js_gt (Num a) (Num b) = (b < a)"
| "js_gt PosInf (Num b) = True"
| "js_gt PosInf NegInf = True"
| "js_gt (Num a) NegInf = True"
| "js_gt NaN y = False"
| "js_gt x NaN = False"
| "js_gt x PosInf = False"
| "js_gt NegInf y = False"

fun js_ge :: "jsnum \<Rightarrow> jsnum \<Rightarrow> bool" where
  "js_ge NaN y = False"
| "js_ge x NaN = False"
| "js_ge (Num a) (Num b) = (b \<le> a)"
| "js_ge PosInf y = True"
| "js_ge x NegInf = True"
| "js_ge x PosInf = False"
| "js_ge NegInf y = False"

text \<open>\<open>Math.max\<close> of two numbers: \<open>NaN\<close> when either is.\<close>

fun js_max :: "jsnum \<Rightarrow> jsnum \<Rightarrow> jsnum" where
  "js_max NaN y = NaN"
| "js_max x NaN = NaN"
| "js_max x y = (if js_ge x y then x else y)"

text \<open>Truthiness of a number, as \<open>||\<close> and \<open>if\<close> test it: zero and \<open>NaN\<close> are falsy.\<close>

fun js_truthy :: "jsnum \<Rightarrow> bool" where
  "js_truthy (Num a) = (a \<noteq> 0)"
| "js_truthy NaN = False"
| "js_truthy PosInf = True"
| "js_truthy NegInf = True"

fun is_finite :: "jsnum \<Rightarrow> bool" where
  "is_finite (Num a) = True"
| "is_finite x = False"

section \<open>Frame features (\<open>src/utils/audio-analysis.js\<close>)\<close>

text \<open>
  A frame is a \<open>Float32Array\<close>; it is modelled as the list of its samples. The
  \<open>for\<close> loops over the indices of a frame are folds over the index list; the loop
  of the spectral centroid, which keeps two sums, is one fold for each sum.
\<close>

type_synonym frame = "jsnum list"

definition magnitudeSum :: "frame \<Rightarrow> jsnum" where
  "magnitudeSum frame =
     foldl (\<lambda>acc i. js_add acc (js_abs (frame ! i))) (Num 0) [0..<length frame]"

definition weightedSum :: "frame \<Rightarrow> jsnum" where
  "weightedSum frame =
     foldl (\<lambda>acc i. js_add acc (js_mul (js_abs (frame ! i)) (Num (real i))))
       (Num 0) [0..<length frame]"

definition calculateSpectralCentroid :: "frame \<Rightarrow> jsnum \<Rightarrow> jsnum" where
  "calculateSpectralCentroid frame sampleRate =
     (if js_gt (magnitudeSum frame) (Num 0)
      then js_div (js_mul (js_div (weightedSum frame) (magnitudeSum frame))
                          (js_div sampleRate (Num 2)))
                  (Num (real (length frame)))
      else Num 0)"

text \<open>
  The same function with every division checked: \<open>None\<close> marks a division whose
  divisor is zero. JavaScript would not stop there (it would go on with an
  infinity or \<open>NaN\<close>); the mark only makes the event visible.
\<close>

definition checked_div :: "jsnum \<Rightarrow> jsnum \<Rightarrow> jsnum option" where
  "checked_div x y = (if y = Num 0 then None else Some (js_div x y))"

definition calculateSpectralCentroid_checked :: "frame \<Rightarrow> jsnum \<Rightarrow> jsnum option" where
  "calculateSpectralCentroid_checked frame sampleRate =
     (if js_gt (magnitudeSum frame) (Num 0)
      then (case checked_div (weightedSum frame) (magnitudeSum frame) of
              None \<Rightarrow> None
            | Some q \<Rightarrow>
                (case checked_div sampleRate (Num 2) of
                   None \<Rightarrow> None
                 | Some h \<Rightarrow> checked_div (js_mul q h) (Num (real (length frame)))))
      else Some (Num 0))"

definition sign_differs :: "frame \<Rightarrow> nat \<Rightarrow> bool" where
  "sign_differs frame i = (js_ge (frame ! i) (Num 0) \<noteq> js_ge (frame ! (i - 1)) (Num 0))"

definition crossings :: "frame \<Rightarrow> nat" where
  "crossings frame =
     foldl (\<lambda>c i. if sign_differs frame i then c + 1 else c) 0 [1..<length frame]"

definition calculateZeroCrossingRate :: "frame \<Rightarrow> jsnum" where
  "calculateZeroCrossingRate frame =
     js_div (Num (real (crossings frame))) (Num (real (length frame)))"

text \<open>
  The inputs and the measure the specification speaks of: the frame of \<open>n\<close> samples
  that alternates between \<open>a\<close> and \<open>- a\<close>, and the number of adjacent sample pairs
  of a frame whose signs differ (a sample counts as non-negative when \<open>x >= 0\<close>).
\<close>

definition alternating :: "real \<Rightarrow> nat \<Rightarrow> frame" where
  "alternating a n = map (\<lambda>i. if even i then Num a else Num (- a)) [0..<n]"

definition differing_pairs :: "frame \<Rightarrow> nat" where
  "differing_pairs frame =
     card {i. 0 < i \<and> i < length frame \<and>
              js_ge (frame ! i) (Num 0) \<noteq> js_ge (frame ! (i - 1)) (Num 0)}"

section \<open>The voice activity detector (\<open>src/services/voice-activity-detector.js\<close>)\<close>

subsection \<open>Data\<close>

text \<open>
  Times are milliseconds as \<open>Date.now()\<close> returns them. A field that holds
  \<open>null\<close> or a time is an \<open>int option\<close>; the program tests such a field by
  truthiness, so that the time \<open>0\<close> counts as absent, and subtracts it as a number,
  where \<open>null\<close> is \<open>0\<close>.
\<close>

fun truthy_time :: "int option \<Rightarrow> bool" where
  "truthy_time None = False"
| "truthy_time (Some t) = (t \<noteq> 0)"

fun the_time :: "int option \<Rightarrow> int" where
  "the_time None = 0"
| "the_time (Some t) = t"

text \<open>
  A timer field holds \<open>null\<close> or the handle that \<open>setTimeout\<close> returned. The handle
  is pending until its deadline, and stays in the field, expired, after its
  callback has run unless the callback clears the field itself. Node runs a
  callback no earlier than \<open>delay\<close> milliseconds after the call, and takes a delay
  below 1 or above \<open>2147483647\<close> as 1.
\<close>

datatype timer = Pending int | Expired

definition setTimeout :: "int \<Rightarrow> int \<Rightarrow> timer" where
  "setTimeout now delay =
     Pending (now + (if delay < 1 \<or> 2147483647 < delay then 1 else delay))"

datatype reason = Silence | Max_duration

datatype start_reason = Continued

record speechEnd_payload =
  audio :: frame
  duration :: int
  timestamp :: "int option"
  reason :: reason

datatype event =
    SpeechStart "start_reason option"
  | SpeechEnd speechEnd_payload
  | SilenceTimeout

record config_audio =
  cfg_sampleRate :: nat
  cfg_vadThreshold :: jsnum
  cfg_silenceTimeout :: int

text \<open>The argument of \<open>updateConfig\<close>: a key that is absent is \<open>None\<close>.\<close>

record config_update =
  upd_vadThreshold :: "jsnum option"
  upd_silenceTimeout :: "int option"

record vad =
  sampleRate :: nat
  frameSize :: nat
  energyThreshold :: jsnum
  speechStartDelay :: int
  speechEndDelay :: int
  maxChunkDuration :: int
  minChunkDuration :: int
  silenceTimeout :: int
  isSpeaking :: bool
  speechStartTime :: "int option"
  speechEndTime :: "int option"
  lastSpeechTime :: "int option"
  audioBuffer :: "jsnum list"
  frameBuffer :: "jsnum list"
  noiseFloor :: jsnum
  adaptiveThreshold :: jsnum
  speechStartTimer :: "timer option"
  speechEndTimer :: "timer option"
  silenceTimer :: "timer option"

record status =
  status_isSpeaking :: bool
  status_bufferLength :: nat
  status_bufferDuration :: jsnum
  status_noiseFloor :: jsnum
  status_adaptiveThreshold :: jsnum
  status_frameBufferLength :: nat

subsection \<open>Construction, reset, reconfiguration\<close>

text \<open>
  \<open>Math.floor(sampleRate * 0.03)\<close> is taken in exact arithmetic, as the number of
  whole samples in 30 ms.
\<close>

definition constructor :: "config_audio \<Rightarrow> vad" where
  "constructor config =
     \<lparr> sampleRate = cfg_sampleRate config,
       frameSize = (cfg_sampleRate config * 3) div 100,
       energyThreshold = cfg_vadThreshold config,
       speechStartDelay = 300,
       speechEndDelay = 1000,
       maxChunkDuration = 3000,
       minChunkDuration = 1000,
       silenceTimeout = cfg_silenceTimeout config,
       isSpeaking = False,
       speechStartTime = None,
       speechEndTime = None,
       lastSpeechTime = None,
       audioBuffer = [],
       frameBuffer = [],
       noiseFloor = Num (1 / 1000),
       adaptiveThreshold = cfg_vadThreshold config,
       speechStartTimer = None,
       speechEndTimer = None,
       silenceTimer = None \<rparr>"

text \<open>\<open>clearTimeout\<close> on each timer that is set, then the state fields.\<close>

definition reset :: "vad \<Rightarrow> vad" where
  "reset s =
     (let s1 = (if speechStartTimer s \<noteq> None then s\<lparr>speechStartTimer := None\<rparr> else s);
          s2 = (if speechEndTimer s1 \<noteq> None then s1\<lparr>speechEndTimer := None\<rparr> else s1);
          s3 = (if silenceTimer s2 \<noteq> None then s2\<lparr>silenceTimer := None\<rparr> else s2)
      in s3\<lparr> isSpeaking := False,
              speechStartTime := None,
              speechEndTime := None,
              lastSpeechTime := None,
              audioBuffer := [],
              frameBuffer := [] \<rparr>)"

text \<open>\<open>a || b\<close> on an optional number: \<open>a\<close> when it is present and truthy.\<close>

fun or_jsnum :: "jsnum option \<Rightarrow> jsnum \<Rightarrow> jsnum" where
  "or_jsnum None b = b"
| "or_jsnum (Some a) b = (if js_truthy a then a else b)"

fun or_int :: "int option \<Rightarrow> int \<Rightarrow> int" where
  "or_int None b = b"
| "or_int (Some a) b = (if a \<noteq> 0 then a else b)"

definition updateConfig :: "config_update \<Rightarrow> vad \<Rightarrow> vad" where
  "updateConfig config s =
     (let s1 = s\<lparr>energyThreshold := or_jsnum (upd_vadThreshold config) (energyThreshold s)\<rparr>;
          s2 = s1\<lparr>silenceTimeout := or_int (upd_silenceTimeout config) (silenceTimeout s1)\<rparr>
      in s2\<lparr>adaptiveThreshold := energyThreshold s2\<rparr>)"

definition getStatus :: "vad \<Rightarrow> status" where
  "getStatus s =
     \<lparr> status_isSpeaking = isSpeaking s,
       status_bufferLength = length (audioBuffer s),
       status_bufferDuration =
         js_div (Num (real (length (audioBuffer s)))) (Num (real (sampleRate s))),
       status_noiseFloor = noiseFloor s,
       status_adaptiveThreshold = adaptiveThreshold s,
       status_frameBufferLength = length (frameBuffer s) \<rparr>"

subsection \<open>Classification and the adaptive threshold\<close>

definition calculateEnergy :: "frame \<Rightarrow> jsnum" where
  "calculateEnergy frame =
     js_sqrt (js_div
       (foldl (\<lambda>sum i. js_add sum (js_mul (frame ! i) (frame ! i))) (Num 0) [0..<length frame])
       (Num (real (length frame))))"

definition detectSpeech :: "vad \<Rightarrow> jsnum \<Rightarrow> bool" where
  "detectSpeech s energy =
     (let threshold = js_max (adaptiveThreshold s) (js_mul (noiseFloor s) (Num 3))
      in js_gt energy threshold)"

definition updateNoiseFloor :: "jsnum \<Rightarrow> bool \<Rightarrow> vad \<Rightarrow> vad" where
  "updateNoiseFloor energy isSpeech s =
     (if \<not> isSpeech
      then (let alpha = Num (1 / 100);
                s1 = s\<lparr>noiseFloor :=
                        js_add (js_mul alpha energy)
                               (js_mul (js_sub (Num 1) alpha) (noiseFloor s))\<rparr>
            in s1\<lparr>adaptiveThreshold := js_mul (noiseFloor s1) (Num 5)\<rparr>)
      else s)"

subsection \<open>Speech state transitions\<close>

definition handleSpeechStart :: "int \<Rightarrow> vad \<Rightarrow> vad" where
  "handleSpeechStart now s =
     (let s1 = (if speechEndTimer s \<noteq> None then s\<lparr>speechEndTimer := None\<rparr> else s)
      in if isSpeaking s1 then s1
         else if speechStartTimer s1 = None
         then s1\<lparr>speechStartTimer := Some (setTimeout now (speechStartDelay s1))\<rparr>
         else s1)"

definition handleSpeechEnd :: "int \<Rightarrow> vad \<Rightarrow> vad" where
  "handleSpeechEnd now s =
     (let s1 = (if speechStartTimer s \<noteq> None then s\<lparr>speechStartTimer := None\<rparr> else s)
      in if isSpeaking s1 \<and> speechEndTimer s1 = None
         then s1\<lparr>speechEndTimer := Some (setTimeout now (speechEndDelay s1))\<rparr>
         else s1)"

definition endSpeech :: "int \<Rightarrow> reason \<Rightarrow> vad \<Rightarrow> vad \<times> event list" where
  "endSpeech now r s =
     (if \<not> isSpeaking s then (s, [])
      else (let s1 = s\<lparr>isSpeaking := False, speechEndTime := Some now\<rparr>;
                dur = the_time (speechEndTime s1) - the_time (speechStartTime s1);
                evs = (if minChunkDuration s1 \<le> dur
                       then [SpeechEnd \<lparr> audio = audioBuffer s1,
                                          duration = dur,
                                          timestamp = speechStartTime s1,
                                          reason = r \<rparr>]
                       else [])
            in (s1\<lparr>audioBuffer := [], speechStartTime := None\<rparr>, evs)))"

definition forceEndSpeech :: "int \<Rightarrow> vad \<Rightarrow> vad \<times> event list" where
  "forceEndSpeech now s =
     (let r = endSpeech now Max_duration s
      in ((fst r)\<lparr>isSpeaking := True, speechStartTime := Some now\<rparr>,
          snd r @ [SpeechStart (Some Continued)]))"

definition handleSilenceTimeout :: "int \<Rightarrow> bool \<Rightarrow> vad \<Rightarrow> vad" where
  "handleSilenceTimeout now isSpeech s =
     (if isSpeech
      then (let s1 = s\<lparr>lastSpeechTime := Some now\<rparr>
            in if silenceTimer s1 \<noteq> None then s1\<lparr>silenceTimer := None\<rparr> else s1)
      else if truthy_time (lastSpeechTime s)
      then (if silenceTimer s = None
            then s\<lparr>silenceTimer := Some (setTimeout now (silenceTimeout s))\<rparr>
            else s)
      else s)"

subsection \<open>Processing a frame\<close>

text \<open>
  One frame is processed at one instant \<open>now\<close>: every \<open>Date.now()\<close> of the call
  returns it. The events the call emits are returned with the new state, in the
  order of emission. A frame is taken to be within the limit that the engine sets
  on the arguments of a call, so that the append of the frame to the audio buffer,
  a spread call, does not throw.
\<close>

definition classify :: "vad \<Rightarrow> frame \<Rightarrow> bool" where
  "classify s frame = detectSpeech s (calculateEnergy frame)"

definition processFrame :: "int \<Rightarrow> frame \<Rightarrow> vad \<Rightarrow> vad \<times> event list" where
  "processFrame now frame s =
     (let energy = calculateEnergy frame;
          isSpeech = detectSpeech s energy;
          s1 = updateNoiseFloor energy isSpeech s;
          s2 = s1\<lparr>audioBuffer := audioBuffer s1 @ frame\<rparr>;
          s3 = (if isSpeech \<and> \<not> isSpeaking s2 then handleSpeechStart now s2
                else if isSpeech \<and> isSpeaking s2
                then (if speechEndTimer s2 \<noteq> None then s2\<lparr>speechEndTimer := None\<rparr> else s2)
                else if \<not> isSpeech \<and> isSpeaking s2 then handleSpeechEnd now s2
                else s2);
          r = (if isSpeaking s3 \<and> truthy_time (speechStartTime s3)
               then (if maxChunkDuration s3 \<le> now - the_time (speechStartTime s3)
                     then forceEndSpeech now s3
                     else (s3, []))
               else (s3, []))
      in (handleSilenceTimeout now isSpeech (fst r), snd r))"

subsection \<open>Timer callbacks\<close>

text \<open>
  The pre-speech window is \<open>Math.floor(sampleRate * 0.3)\<close> samples, in exact
  arithmetic. The callbacks of the onset and offset timers leave their handle in
  its field; the callback of the silence timer clears its field.
\<close>

definition speechStartTimer_callback :: "int \<Rightarrow> vad \<Rightarrow> vad \<times> event list" where
  "speechStartTimer_callback now s =
     (let s1 = s\<lparr>isSpeaking := True, speechStartTime := Some now, lastSpeechTime := Some now\<rparr>;
          preSpeechSamples = (sampleRate s1 * 3) div 10;
          startIndex = max 0 (int (length (audioBuffer s1)) - int preSpeechSamples)
      in (s1\<lparr>audioBuffer := drop (nat startIndex) (audioBuffer s1)\<rparr>, [SpeechStart None]))"

definition speechEndTimer_callback :: "int \<Rightarrow> vad \<Rightarrow> vad \<times> event list" where
  "speechEndTimer_callback now s = endSpeech now Silence s"

definition silenceTimer_callback :: "int \<Rightarrow> vad \<Rightarrow> vad \<times> event list" where
  "silenceTimer_callback now s = (s\<lparr>silenceTimer := None\<rparr>, [SilenceTimeout])"

text \<open>
  The event loop runs the callback of a timer at a time \<open>now\<close> when the timer is
  pending and due; a timer that was cleared, or has run, does nothing.
\<close>

definition speechStartTimer_fires :: "int \<Rightarrow> vad \<Rightarrow> vad \<times> event list" where
  "speechStartTimer_fires now s =
     (case speechStartTimer s of
        Some (Pending d) \<Rightarrow>
          if d \<le> now then speechStartTimer_callback now (s\<lparr>speechStartTimer := Some Expired\<rparr>)
          else (s, [])
      | _ \<Rightarrow> (s, []))"

definition speechEndTimer_fires :: "int \<Rightarrow> vad \<Rightarrow> vad \<times> event list" where
  "speechEndTimer_fires now s =
     (case speechEndTimer s of
        Some (Pending d) \<Rightarrow>
          if d \<le> now then speechEndTimer_callback now (s\<lparr>speechEndTimer := Some Expired\<rparr>)
          else (s, [])
      | _ \<Rightarrow> (s, []))"

definition silenceTimer_fires :: "int \<Rightarrow> vad \<Rightarrow> vad \<times> event list" where
  "silenceTimer_fires now s =
     (case silenceTimer s of
        Some (Pending d) \<Rightarrow>
          if d \<le> now then silenceTimer_callback now (s\<lparr>silenceTimer := Some Expired\<rparr>)
          else (s, [])
      | _ \<Rightarrow> (s, []))"

subsection \<open>The frame assembler\<close>

text \<open>
  \<open>processAudio\<close> appends the block to the frame buffer and runs the \<open>while\<close> loop.
  The append is \<open>this.frameBuffer.push(...audioData)\<close>: the block is spread into
  the arguments of one call, and the engine throws \<open>RangeError\<close>, before anything is
  appended, when the block has more elements than a call can take at that moment.
  That number is the engine's, not the program's (some hundred thousand), so it
  is a parameter, \<open>limit\<close>.

  The loop does not end when \<open>frameSize\<close> is \<open>0\<close> (\<open>splice(0, 0)\<close> removes nothing),
  so it is a partial function: \<open>None\<close> is a call that never returns. \<open>clock k\<close> is
  the time at which the \<open>k\<close>-th frame of the call is processed. Beside the state
  and the events, the loop returns the frames it handed to \<open>processFrame\<close>, in
  order, each with the decision taken on it. The samples are single-precision
  numbers already, so that \<open>new Float32Array\<close> copies them as they are.
\<close>

datatype error = RangeError

type_synonym frame_log = "(frame \<times> bool) list"

partial_function (option) processAudio_loop ::
  "(nat \<Rightarrow> int) \<Rightarrow> nat \<Rightarrow> vad \<Rightarrow> event list \<Rightarrow> frame_log \<Rightarrow> (vad \<times> event list \<times> frame_log) option"
where
  "processAudio_loop clock k s evs seen =
     (if frameSize s \<le> length (frameBuffer s)
      then (let frame = take (frameSize s) (frameBuffer s);
                s1 = s\<lparr>frameBuffer := drop (frameSize s) (frameBuffer s)\<rparr>;
                r = processFrame (clock k) frame s1
            in processAudio_loop clock (Suc k) (fst r) (evs @ snd r)
                 (seen @ [(frame, classify s1 frame)]))
      else Some (s, evs, seen))"

definition processAudio ::
  "nat \<Rightarrow> (nat \<Rightarrow> int) \<Rightarrow> jsnum list \<Rightarrow> vad
     \<Rightarrow> (error + vad \<times> event list \<times> frame_log) option"
where
  "processAudio limit clock audioData s =
     (if limit < length audioData then Some (Inl RangeError)
      else map_option Inr
             (processAudio_loop clock 0 (s\<lparr>frameBuffer := frameBuffer s @ audioData\<rparr>) [] []))"

subsection \<open>Runs\<close>

text \<open>
  What happens to a detector is a sequence of calls of its methods and of timer
  callbacks run by the event loop, each at its time; the event loop may run a
  callback at any time from the deadline of its timer on. A call of \<open>processAudio\<close>
  comes with the argument limit of the engine at that call. A run returns the
  final state, the events emitted and the frames classified, in order; it is
  \<open>None\<close> when a call of \<open>processAudio\<close> in it does not return. A call that throws
  leaves the detector as it was, with its block outside the frame buffer; the
  exception goes to the caller.
\<close>

datatype action =
    ProcessAudio nat "nat \<Rightarrow> int" "jsnum list"
  | ProcessFrame int frame
  | SpeechStartTimerFires int
  | SpeechEndTimerFires int
  | SilenceTimerFires int
  | Reset
  | UpdateConfig config_update

fun step :: "action \<Rightarrow> vad \<Rightarrow> (vad \<times> event list \<times> frame_log) option" where
  "step (ProcessAudio limit clock audioData) s =
     (case processAudio limit clock audioData s of
        None \<Rightarrow> None
      | Some (Inl e) \<Rightarrow> Some (s, [], [])
      | Some (Inr r) \<Rightarrow> Some r)"
| "step (ProcessFrame now frame) s =
     (let r = processFrame now frame s in Some (fst r, snd r, [(frame, classify s frame)]))"
| "step (SpeechStartTimerFires now) s =
     (let r = speechStartTimer_fires now s in Some (fst r, snd r, []))"
| "step (SpeechEndTimerFires now) s =
     (let r = speechEndTimer_fires now s in Some (fst r, snd r, []))"
| "step (SilenceTimerFires now) s =
     (let r = silenceTimer_fires now s in Some (fst r, snd r, []))"
| "step Reset s = Some (reset s, [], [])"
| "step (UpdateConfig config) s = Some (updateConfig config s, [], [])"

fun run :: "action list \<Rightarrow> vad \<Rightarrow> (vad \<times> event list \<times> frame_log) option" where
  "run [] s = Some (s, [], [])"
| "run (a # as) s =
     (case step a s of
        None \<Rightarrow> None
      | Some (s1, evs1, seen1) \<Rightarrow>
          (case run as s1 of
             None \<Rightarrow> None
           | Some (s2, evs2, seen2) \<Rightarrow> Some (s2, evs1 @ evs2, seen1 @ seen2)))"

text \<open>
  The samples handed to the frame assembler in a run, and the actions of the runs
  in which nothing but the assembler touches the frame buffer or classifies a
  frame, and in which no spread call has too many arguments: the block of every
  call of \<open>processAudio\<close>, and a frame of \<open>n\<close> samples, are within the limit of that
  call.
\<close>

fun fed :: "action list \<Rightarrow> jsnum list" where
  "fed [] = []"
| "fed (ProcessAudio limit clock audioData # as) = audioData @ fed as"
| "fed (a # as) = fed as"


text \<open>The actions of the event loop, in which no frame is processed.\<close>

fun timer_callback :: "action \<Rightarrow> bool" where
  "timer_callback (SpeechStartTimerFires now) = True"
| "timer_callback (SpeechEndTimerFires now) = True"
| "timer_callback (SilenceTimerFires now) = True"
| "timer_callback a = False"

text \<open>The number of silence timers that are pending: one or none.\<close>

definition pending_alarms :: "vad \<Rightarrow> nat" where
  "pending_alarms s = (case silenceTimer s of Some (Pending d) \<Rightarrow> 1 | _ \<Rightarrow> 0)"

text \<open>
  A detector for the examples: 50 samples per second, so that a frame is one
  sample, with the threshold of the repository's tests.
\<close>

definition example_config :: config_audio where
  "example_config =
     \<lparr> cfg_sampleRate = 50, cfg_vadThreshold = Num (1 / 100), cfg_silenceTimeout = 10000 \<rparr>"

definition example_vad :: vad where
  "example_vad = constructor example_config"

text \<open>
  States the example detector passes through: after a loud frame at time 1000
  (onset timer pending), after the onset timer has run at 1300 (speaking), after a
  silent frame at 1330 (offset timer pending), after silent frames at 4000 and at
  4300, where the maximum duration restarts the segment while the offset timer of
  4000 is pending, and after a frame at the threshold, which lowers the thresholds.
\<close>

definition confirming_vad :: vad where
  "confirming_vad = fst (processFrame 1000 [Num 1] example_vad)"

definition speaking_vad :: vad where
  "speaking_vad = fst (speechStartTimer_fires 1300 confirming_vad)"

definition ending_vad :: vad where
  "ending_vad = fst (processFrame 1330 [Num 0] speaking_vad)"

definition restarted_vad :: vad where
  "restarted_vad =
     fst (processFrame 4300 [Num 0] (fst (processFrame 4000 [Num 0] speaking_vad)))"

definition adapted_vad :: vad where
  "adapted_vad = fst (processFrame 1000 [Num (1 / 100)] example_vad)"

text \<open>
  The detector that the constructor builds from the settings a detector has now,
  given the noise floor and the adaptive threshold of that detector.
\<close>

definition fresh_with_thresholds :: "config_audio \<Rightarrow> vad \<Rightarrow> vad" where
  "fresh_with_thresholds config s =
     (constructor (config\<lparr> cfg_vadThreshold := energyThreshold s,
                            cfg_silenceTimeout := silenceTimeout s \<rparr>))
       \<lparr> noiseFloor := noiseFloor s, adaptiveThreshold := adaptiveThreshold s \<rparr>"



text \<open>The fields that the constructor sets and no method assigns.\<close>

definition constants :: "vad \<Rightarrow> nat \<times> nat \<times> int \<times> int \<times> int \<times> int" where
  "constants s =
     (sampleRate s, frameSize s, speechStartDelay s, speechEndDelay s,
      maxChunkDuration s, minChunkDuration s)"

section \<open>Properties of the frame features\<close>

text \<open>A fold over the indices of a list is the fold over its elements.\<close>

lemma foldl_nth: "foldl (\<lambda>acc i. f acc (xs ! i)) a [0..<length xs] = foldl f a xs"
proof -
  have "foldl f a xs = foldl f a (map ((!) xs) [0..<length xs])"
    by (simp add: map_nth)
  also have "\<dots> = foldl (\<lambda>acc i. f acc (xs ! i)) a [0..<length xs]"
    by (simp add: foldl_map)
  finally show ?thesis by simp
qed

subsection \<open>The spectral centroid\<close>

lemma magnitudeSum_foldl:
  "magnitudeSum frame = foldl (\<lambda>acc x. js_add acc (js_abs x)) (Num 0) frame"
  unfolding magnitudeSum_def by (rule foldl_nth)

lemma magnitudeSum_zeros: "magnitudeSum (replicate n (Num 0)) = Num 0"
  unfolding magnitudeSum_foldl by (induction n) simp_all

lemma magnitudeSum_positive_nonempty: "js_gt (magnitudeSum frame) (Num 0) \<Longrightarrow> frame \<noteq> []"
  by (auto simp: magnitudeSum_def)

text \<open>
  Claim C10. \<open>calculateSpectralCentroid\<close> is total and never divides by zero: the
  function with checked divisions never meets a zero divisor and returns what the
  function returns; when the sum of the magnitudes is zero, and so for a frame of
  zeros of any length, the result is \<open>0\<close>.
\<close>

theorem calculateSpectralCentroid_guarded:
  "calculateSpectralCentroid_checked frame rate = Some (calculateSpectralCentroid frame rate)
   \<and> (magnitudeSum frame = Num 0 \<longrightarrow> calculateSpectralCentroid frame rate = Num 0)
   \<and> calculateSpectralCentroid (replicate n (Num 0)) rate = Num 0"
proof (intro conjI impI)
  show "calculateSpectralCentroid_checked frame rate = Some (calculateSpectralCentroid frame rate)"
  proof (cases "js_gt (magnitudeSum frame) (Num 0)")
    case True
    then have m: "magnitudeSum frame \<noteq> Num 0" by auto
    from True have "frame \<noteq> []" by (rule magnitudeSum_positive_nonempty)
    then have l: "Num (real (length frame)) \<noteq> Num 0" by simp
    from True m l show ?thesis
      by (simp add: calculateSpectralCentroid_checked_def calculateSpectralCentroid_def
          checked_div_def)
  next
    case False
    then show ?thesis
      by (simp add: calculateSpectralCentroid_checked_def calculateSpectralCentroid_def)
  qed
next
  assume "magnitudeSum frame = Num 0"
  then show "calculateSpectralCentroid frame rate = Num 0"
    by (simp add: calculateSpectralCentroid_def)
next
  show "calculateSpectralCentroid (replicate n (Num 0)) rate = Num 0"
    by (simp add: calculateSpectralCentroid_def magnitudeSum_zeros)
qed

theorem calculateSpectralCentroid_guarded_witness:
  "calculateSpectralCentroid_checked [Num 0, Num 0] (Num 16000) = Some (Num 0)
   \<and> magnitudeSum [Num 0, Num 0] = Num 0
   \<and> calculateSpectralCentroid [Num 0, Num 0] (Num 16000) = Num 0
   \<and> calculateSpectralCentroid_checked [Num 1, Num 1] (Num 16000) = Some (Num 2000)"
  using calculateSpectralCentroid_guarded [of "[Num 0, Num 0]" "Num 16000" 2]
    calculateSpectralCentroid_guarded [of "[Num 1, Num 1]" "Num 16000" 2]
  by (simp add: calculateSpectralCentroid_def magnitudeSum_def weightedSum_def upt_rec)

subsection \<open>The zero-crossing rate\<close>

lemma foldl_count: "foldl (\<lambda>c i. if P i then c + 1 else c) c0 xs = c0 + length (filter P xs)"
  by (induction xs arbitrary: c0) simp_all

lemma crossings_filter:
  "crossings frame = length (filter (sign_differs frame) [1..<length frame])"
  by (simp add: crossings_def foldl_count)

lemma differing_pairs_filter:
  "differing_pairs frame = length (filter (sign_differs frame) [1..<length frame])"
proof -
  have "{i. 0 < i \<and> i < length frame \<and>
            js_ge (frame ! i) (Num 0) \<noteq> js_ge (frame ! (i - 1)) (Num 0)}
        = set (filter (sign_differs frame) [1..<length frame])"
    by (auto simp: sign_differs_def)
  then have "differing_pairs frame = card (set (filter (sign_differs frame) [1..<length frame]))"
    by (simp add: differing_pairs_def)
  also have "\<dots> = length (filter (sign_differs frame) [1..<length frame])"
    by (rule distinct_card) simp
  finally show ?thesis .
qed

lemma crossings_le: "crossings frame \<le> length frame"
proof -
  have "crossings frame \<le> length [1..<length frame]"
    unfolding crossings_filter by (rule length_filter_le)
  then show ?thesis by simp
qed

lemma sign_differs_alternating:
  assumes "a \<noteq> 0" "0 < i" "i < n"
  shows "sign_differs (alternating a n) i"
proof -
  from assms have "even i \<noteq> even (i - 1)" by (cases i) simp_all
  with assms show ?thesis
    by (auto simp: sign_differs_def alternating_def)
qed

lemma crossings_alternating:
  assumes "a \<noteq> 0"
  shows "crossings (alternating a n) = n - 1"
proof -
  have "filter (sign_differs (alternating a n)) [1..<n] = [1..<n]"
    using assms by (auto simp: filter_id_conv sign_differs_alternating)
  then show ?thesis
    by (simp add: crossings_filter alternating_def)
qed

text \<open>
  Claim C9 asks for a rate in \<open>[0, 1]\<close> for every frame, as the comment of the
  function does (\<open>Zero-crossing rate (0-1)\<close>). For the frame of length \<open>0\<close> the
  function divides \<open>0\<close> by \<open>0\<close> and returns \<open>NaN\<close>: the divisor has no guard, as the
  divisor of \<open>calculateSpectralCentroid\<close> has.
\<close>

theorem calculateZeroCrossingRate_empty: "calculateZeroCrossingRate [] = NaN"
  by (simp add: calculateZeroCrossingRate_def crossings_def)

text \<open>
  On the frames that are not empty the rate is as documented: for every \<open>n \<ge> 1\<close>
  and every amplitude \<open>a \<noteq> 0\<close>, so for every \<open>a > 0\<close>, the rate of the frame of \<open>n\<close>
  samples alternating between \<open>a\<close> and \<open>- a\<close> is \<open>(n - 1) / n\<close>; and the rate of a
  frame that is not empty is the number of adjacent sample pairs whose signs
  differ, divided by the number of samples, and lies in \<open>[0, 1]\<close>.
\<close>

theorem calculateZeroCrossingRate_nonempty:
  "(0 < n \<and> a \<noteq> 0 \<longrightarrow>
      calculateZeroCrossingRate (alternating a n) = Num (real (n - 1) / real n))
   \<and> (frame \<noteq> [] \<longrightarrow>
        calculateZeroCrossingRate frame
          = Num (real (differing_pairs frame) / real (length frame))
        \<and> 0 \<le> real (differing_pairs frame) / real (length frame)
        \<and> real (differing_pairs frame) / real (length frame) \<le> 1)"
proof (intro conjI impI)
  assume "0 < n \<and> a \<noteq> 0"
  then show "calculateZeroCrossingRate (alternating a n) = Num (real (n - 1) / real n)"
    by (simp add: calculateZeroCrossingRate_def crossings_alternating) (simp add: alternating_def)
next
  assume "frame \<noteq> []"
  then show "calculateZeroCrossingRate frame
               = Num (real (differing_pairs frame) / real (length frame))"
    by (simp add: calculateZeroCrossingRate_def differing_pairs_filter crossings_filter)
next
  show "0 \<le> real (differing_pairs frame) / real (length frame)" by simp
next
  assume nonempty: "frame \<noteq> []"
  have "differing_pairs frame \<le> length frame"
    using crossings_le [of frame] by (simp add: differing_pairs_filter crossings_filter)
  then show "real (differing_pairs frame) / real (length frame) \<le> 1"
    using nonempty by (simp add: divide_le_eq)
qed

theorem calculateZeroCrossingRate_nonempty_witness:
  "calculateZeroCrossingRate (alternating 1 6) = Num (5 / 6)
   \<and> calculateZeroCrossingRate [Num 1, Num (- 1), Num (- 2)] = Num (1 / 3)
   \<and> differing_pairs [Num 1, Num (- 1), Num (- 2)] = 1"
  using calculateZeroCrossingRate_nonempty [of 6 1 "[Num 1, Num (- 1), Num (- 2)]"]
  by (simp add: differing_pairs_filter sign_differs_def upt_rec)


section \<open>Properties of the detector\<close>

subsection \<open>What each transition leaves unchanged\<close>

lemma constants_update [simp]:
  "constants (s\<lparr>audioBuffer := a\<rparr>) = constants s"
  "constants (s\<lparr>frameBuffer := f\<rparr>) = constants s"
  "constants (s\<lparr>speechEndTimer := t\<rparr>) = constants s"
  "constants (s\<lparr>speechStartTimer := t\<rparr>) = constants s"
  "constants (s\<lparr>silenceTimer := t\<rparr>) = constants s"
  by (simp_all add: constants_def)

lemma updateNoiseFloor_keeps [simp]:
  "isSpeaking (updateNoiseFloor e b s) = isSpeaking s"
  "speechStartTime (updateNoiseFloor e b s) = speechStartTime s"
  "speechEndTime (updateNoiseFloor e b s) = speechEndTime s"
  "lastSpeechTime (updateNoiseFloor e b s) = lastSpeechTime s"
  "audioBuffer (updateNoiseFloor e b s) = audioBuffer s"
  "frameBuffer (updateNoiseFloor e b s) = frameBuffer s"
  "silenceTimeout (updateNoiseFloor e b s) = silenceTimeout s"
  "energyThreshold (updateNoiseFloor e b s) = energyThreshold s"
  "silenceTimer (updateNoiseFloor e b s) = silenceTimer s"
  "speechStartTimer (updateNoiseFloor e b s) = speechStartTimer s"
  "speechEndTimer (updateNoiseFloor e b s) = speechEndTimer s"
  "sampleRate (updateNoiseFloor e b s) = sampleRate s"
  "frameSize (updateNoiseFloor e b s) = frameSize s"
  "speechStartDelay (updateNoiseFloor e b s) = speechStartDelay s"
  "speechEndDelay (updateNoiseFloor e b s) = speechEndDelay s"
  "maxChunkDuration (updateNoiseFloor e b s) = maxChunkDuration s"
  "minChunkDuration (updateNoiseFloor e b s) = minChunkDuration s"
  "constants (updateNoiseFloor e b s) = constants s"
  by (simp_all add: updateNoiseFloor_def constants_def Let_def)

lemma handleSpeechStart_keeps [simp]:
  "isSpeaking (handleSpeechStart now s) = isSpeaking s"
  "speechStartTime (handleSpeechStart now s) = speechStartTime s"
  "speechEndTime (handleSpeechStart now s) = speechEndTime s"
  "lastSpeechTime (handleSpeechStart now s) = lastSpeechTime s"
  "audioBuffer (handleSpeechStart now s) = audioBuffer s"
  "frameBuffer (handleSpeechStart now s) = frameBuffer s"
  "silenceTimeout (handleSpeechStart now s) = silenceTimeout s"
  "energyThreshold (handleSpeechStart now s) = energyThreshold s"
  "silenceTimer (handleSpeechStart now s) = silenceTimer s"
  "noiseFloor (handleSpeechStart now s) = noiseFloor s"
  "adaptiveThreshold (handleSpeechStart now s) = adaptiveThreshold s"
  "sampleRate (handleSpeechStart now s) = sampleRate s"
  "frameSize (handleSpeechStart now s) = frameSize s"
  "speechStartDelay (handleSpeechStart now s) = speechStartDelay s"
  "speechEndDelay (handleSpeechStart now s) = speechEndDelay s"
  "maxChunkDuration (handleSpeechStart now s) = maxChunkDuration s"
  "minChunkDuration (handleSpeechStart now s) = minChunkDuration s"
  "constants (handleSpeechStart now s) = constants s"
  by (simp_all add: handleSpeechStart_def constants_def Let_def)

lemma handleSpeechEnd_keeps [simp]:
  "isSpeaking (handleSpeechEnd now s) = isSpeaking s"
  "speechStartTime (handleSpeechEnd now s) = speechStartTime s"
  "speechEndTime (handleSpeechEnd now s) = speechEndTime s"
  "lastSpeechTime (handleSpeechEnd now s) = lastSpeechTime s"
  "audioBuffer (handleSpeechEnd now s) = audioBuffer s"
  "frameBuffer (handleSpeechEnd now s) = frameBuffer s"
  "silenceTimeout (handleSpeechEnd now s) = silenceTimeout s"
  "energyThreshold (handleSpeechEnd now s) = energyThreshold s"
  "silenceTimer (handleSpeechEnd now s) = silenceTimer s"
  "noiseFloor (handleSpeechEnd now s) = noiseFloor s"
  "adaptiveThreshold (handleSpeechEnd now s) = adaptiveThreshold s"
  "sampleRate (handleSpeechEnd now s) = sampleRate s"
  "frameSize (handleSpeechEnd now s) = frameSize s"
  "speechStartDelay (handleSpeechEnd now s) = speechStartDelay s"
  "speechEndDelay (handleSpeechEnd now s) = speechEndDelay s"
  "maxChunkDuration (handleSpeechEnd now s) = maxChunkDuration s"
  "minChunkDuration (handleSpeechEnd now s) = minChunkDuration s"
  "constants (handleSpeechEnd now s) = constants s"
  by (simp_all add: handleSpeechEnd_def constants_def Let_def)

lemma handleSilenceTimeout_keeps [simp]:
  "isSpeaking (handleSilenceTimeout now b s) = isSpeaking s"
  "speechStartTime (handleSilenceTimeout now b s) = speechStartTime s"
  "speechEndTime (handleSilenceTimeout now b s) = speechEndTime s"
  "audioBuffer (handleSilenceTimeout now b s) = audioBuffer s"
  "frameBuffer (handleSilenceTimeout now b s) = frameBuffer s"
  "silenceTimeout (handleSilenceTimeout now b s) = silenceTimeout s"
  "energyThreshold (handleSilenceTimeout now b s) = energyThreshold s"
  "speechStartTimer (handleSilenceTimeout now b s) = speechStartTimer s"
  "speechEndTimer (handleSilenceTimeout now b s) = speechEndTimer s"
  "noiseFloor (handleSilenceTimeout now b s) = noiseFloor s"
  "adaptiveThreshold (handleSilenceTimeout now b s) = adaptiveThreshold s"
  "sampleRate (handleSilenceTimeout now b s) = sampleRate s"
  "frameSize (handleSilenceTimeout now b s) = frameSize s"
  "speechStartDelay (handleSilenceTimeout now b s) = speechStartDelay s"
  "speechEndDelay (handleSilenceTimeout now b s) = speechEndDelay s"
  "maxChunkDuration (handleSilenceTimeout now b s) = maxChunkDuration s"
  "minChunkDuration (handleSilenceTimeout now b s) = minChunkDuration s"
  "constants (handleSilenceTimeout now b s) = constants s"
  by (simp_all add: handleSilenceTimeout_def constants_def Let_def)

lemma endSpeech_keeps [simp]:
  "lastSpeechTime (fst (endSpeech now r s)) = lastSpeechTime s"
  "frameBuffer (fst (endSpeech now r s)) = frameBuffer s"
  "silenceTimeout (fst (endSpeech now r s)) = silenceTimeout s"
  "energyThreshold (fst (endSpeech now r s)) = energyThreshold s"
  "silenceTimer (fst (endSpeech now r s)) = silenceTimer s"
  "speechStartTimer (fst (endSpeech now r s)) = speechStartTimer s"
  "speechEndTimer (fst (endSpeech now r s)) = speechEndTimer s"
  "noiseFloor (fst (endSpeech now r s)) = noiseFloor s"
  "adaptiveThreshold (fst (endSpeech now r s)) = adaptiveThreshold s"
  "sampleRate (fst (endSpeech now r s)) = sampleRate s"
  "frameSize (fst (endSpeech now r s)) = frameSize s"
  "speechStartDelay (fst (endSpeech now r s)) = speechStartDelay s"
  "speechEndDelay (fst (endSpeech now r s)) = speechEndDelay s"
  "maxChunkDuration (fst (endSpeech now r s)) = maxChunkDuration s"
  "minChunkDuration (fst (endSpeech now r s)) = minChunkDuration s"
  "constants (fst (endSpeech now r s)) = constants s"
  by (simp_all add: endSpeech_def constants_def Let_def)

lemma forceEndSpeech_keeps [simp]:
  "lastSpeechTime (fst (forceEndSpeech now s)) = lastSpeechTime s"
  "frameBuffer (fst (forceEndSpeech now s)) = frameBuffer s"
  "silenceTimeout (fst (forceEndSpeech now s)) = silenceTimeout s"
  "energyThreshold (fst (forceEndSpeech now s)) = energyThreshold s"
  "silenceTimer (fst (forceEndSpeech now s)) = silenceTimer s"
  "speechStartTimer (fst (forceEndSpeech now s)) = speechStartTimer s"
  "speechEndTimer (fst (forceEndSpeech now s)) = speechEndTimer s"
  "noiseFloor (fst (forceEndSpeech now s)) = noiseFloor s"
  "adaptiveThreshold (fst (forceEndSpeech now s)) = adaptiveThreshold s"
  "sampleRate (fst (forceEndSpeech now s)) = sampleRate s"
  "frameSize (fst (forceEndSpeech now s)) = frameSize s"
  "speechStartDelay (fst (forceEndSpeech now s)) = speechStartDelay s"
  "speechEndDelay (fst (forceEndSpeech now s)) = speechEndDelay s"
  "maxChunkDuration (fst (forceEndSpeech now s)) = maxChunkDuration s"
  "minChunkDuration (fst (forceEndSpeech now s)) = minChunkDuration s"
  "constants (fst (forceEndSpeech now s)) = constants s"
  by (simp_all add: forceEndSpeech_def endSpeech_def constants_def Let_def)

lemma forceEndSpeech_speaking:
  assumes "isSpeaking s" and "minChunkDuration s \<le> now - the_time (speechStartTime s)"
  shows "snd (forceEndSpeech now s) =
           [SpeechEnd \<lparr> audio = audioBuffer s, duration = now - the_time (speechStartTime s),
                         timestamp = speechStartTime s, reason = Max_duration \<rparr>,
            SpeechStart (Some Continued)]"
    and "isSpeaking (fst (forceEndSpeech now s))"
    and "speechStartTime (fst (forceEndSpeech now s)) = Some now"
    and "audioBuffer (fst (forceEndSpeech now s)) = []"
  using assms by (simp_all add: forceEndSpeech_def endSpeech_def Let_def)

text \<open>
  \<open>processFrame\<close> with the tests of its transitions read on the state at entry:
  neither the update of the noise floor nor the append changes what they read.
\<close>

lemma processFrame_unfold:
  "processFrame now frame s =
     (let b = classify s frame;
          s2 = (updateNoiseFloor (calculateEnergy frame) b s)
                 \<lparr>audioBuffer := audioBuffer s @ frame\<rparr>;
          s3 = (if b \<and> \<not> isSpeaking s then handleSpeechStart now s2
                else if b \<and> isSpeaking s
                then (if speechEndTimer s \<noteq> None then s2\<lparr>speechEndTimer := None\<rparr> else s2)
                else if \<not> b \<and> isSpeaking s then handleSpeechEnd now s2
                else s2);
          r = (if isSpeaking s \<and> truthy_time (speechStartTime s)
               then (if maxChunkDuration s \<le> now - the_time (speechStartTime s)
                     then forceEndSpeech now s3
                     else (s3, []))
               else (s3, []))
      in (handleSilenceTimeout now b (fst r), snd r))"
  by (simp add: processFrame_def classify_def Let_def)

lemma classify_frameBuffer [simp]: "classify (s\<lparr>frameBuffer := b\<rparr>) frame = classify s frame"
  by (simp add: classify_def detectSpeech_def)

lemma noiseFloor_processFrame:
  "noiseFloor (fst (processFrame now frame s))
     = noiseFloor (updateNoiseFloor (calculateEnergy frame) (classify s frame) s)"
  by (simp add: processFrame_unfold Let_def)

lemma adaptiveThreshold_processFrame:
  "adaptiveThreshold (fst (processFrame now frame s))
     = adaptiveThreshold (updateNoiseFloor (calculateEnergy frame) (classify s frame) s)"
  by (simp add: processFrame_unfold Let_def)

lemma processFrame_keeps [simp]:
  "frameBuffer (fst (processFrame now frame s)) = frameBuffer s"
  "constants (fst (processFrame now frame s)) = constants s"
  "energyThreshold (fst (processFrame now frame s)) = energyThreshold s"
  "silenceTimeout (fst (processFrame now frame s)) = silenceTimeout s"
  by (simp_all add: processFrame_unfold Let_def)

lemma timers_keep [simp]:
  "noiseFloor (fst (speechStartTimer_fires now s)) = noiseFloor s"
  "noiseFloor (fst (speechEndTimer_fires now s)) = noiseFloor s"
  "noiseFloor (fst (silenceTimer_fires now s)) = noiseFloor s"
  "frameBuffer (fst (speechStartTimer_fires now s)) = frameBuffer s"
  "frameBuffer (fst (speechEndTimer_fires now s)) = frameBuffer s"
  "frameBuffer (fst (silenceTimer_fires now s)) = frameBuffer s"
  "constants (fst (speechStartTimer_fires now s)) = constants s"
  "constants (fst (speechEndTimer_fires now s)) = constants s"
  "constants (fst (silenceTimer_fires now s)) = constants s"
  by (simp_all add: speechStartTimer_fires_def speechEndTimer_fires_def silenceTimer_fires_def
      speechStartTimer_callback_def speechEndTimer_callback_def silenceTimer_callback_def
      constants_def endSpeech_def Let_def split: option.splits timer.splits)

lemma reset_keeps [simp]:
  "noiseFloor (reset s) = noiseFloor s"
  "adaptiveThreshold (reset s) = adaptiveThreshold s"
  "energyThreshold (reset s) = energyThreshold s"
  "silenceTimeout (reset s) = silenceTimeout s"
  "constants (reset s) = constants s"
  by (simp_all add: reset_def constants_def Let_def)

lemma updateConfig_keeps [simp]:
  "noiseFloor (updateConfig c s) = noiseFloor s"
  "frameBuffer (updateConfig c s) = frameBuffer s"
  "constants (updateConfig c s) = constants s"
  by (simp_all add: updateConfig_def constants_def Let_def)

subsection \<open>Induction over the loop of the frame assembler\<close>

lemma processAudio_loop_induct [consumes 1, case_names exit frame]:
  assumes major: "processAudio_loop clock k s evs seen = Some y"
    and exit: "\<And>clock k s evs seen.
        \<not> frameSize s \<le> length (frameBuffer s) \<Longrightarrow> P clock k s evs seen (s, evs, seen)"
    and frame: "\<And>clock k s evs seen y fr s1 r.
        frameSize s \<le> length (frameBuffer s) \<Longrightarrow>
        fr = take (frameSize s) (frameBuffer s) \<Longrightarrow>
        s1 = s\<lparr>frameBuffer := drop (frameSize s) (frameBuffer s)\<rparr> \<Longrightarrow>
        r = processFrame (clock k) fr s1 \<Longrightarrow>
        P clock (Suc k) (fst r) (evs @ snd r) (seen @ [(fr, classify s1 fr)]) y \<Longrightarrow>
        P clock k s evs seen y"
  shows "P clock k s evs seen y"
proof (rule processAudio_loop.raw_induct [where P = P, OF _ major])
  fix loop clock k s evs seen y
  assume IH: "\<And>clock k s evs seen y. loop clock k s evs seen = Some y \<Longrightarrow> P clock k s evs seen y"
    and body: "(if frameSize s \<le> length (frameBuffer s)
      then let frame = take (frameSize s) (frameBuffer s);
               s1 = s\<lparr>frameBuffer := drop (frameSize s) (frameBuffer s)\<rparr>;
               r = processFrame (clock k) frame s1
           in loop clock (Suc k) (fst r) (evs @ snd r) (seen @ [(frame, classify s1 frame)])
      else Some (s, evs, seen)) = Some y"
  show "P clock k s evs seen y"
  proof (cases "frameSize s \<le> length (frameBuffer s)")
    case True
    with body have "loop clock (Suc k)
        (fst (processFrame (clock k) (take (frameSize s) (frameBuffer s))
               (s\<lparr>frameBuffer := drop (frameSize s) (frameBuffer s)\<rparr>)))
        (evs @ snd (processFrame (clock k) (take (frameSize s) (frameBuffer s))
               (s\<lparr>frameBuffer := drop (frameSize s) (frameBuffer s)\<rparr>)))
        (seen @ [(take (frameSize s) (frameBuffer s),
                  classify (s\<lparr>frameBuffer := drop (frameSize s) (frameBuffer s)\<rparr>)
                    (take (frameSize s) (frameBuffer s)))]) = Some y"
      by (simp add: Let_def)
    from IH [OF this] show ?thesis
      by (rule frame [OF True refl refl refl])
  next
    case False
    with body have "y = (s, evs, seen)" by simp
    with exit [OF False] show ?thesis by simp
  qed
qed

text \<open>A call of \<open>processAudio\<close> that returns has run the loop on the buffer with the block.\<close>

lemma processAudio_returned:
  assumes "processAudio limit clock audioData s = Some (Inr r)"
  shows "processAudio_loop clock 0 (s\<lparr>frameBuffer := frameBuffer s @ audioData\<rparr>) [] [] = Some r"
  using assms by (auto simp: processAudio_def split: if_splits)

subsection \<open>Evaluating the examples\<close>

lemma calculateEnergy_single [simp]: "calculateEnergy [Num a] = Num \<bar>a\<bar>"
  by (simp add: calculateEnergy_def)

lemma calculateEnergy_single_NaN [simp]: "calculateEnergy [NaN] = NaN"
  by (simp add: calculateEnergy_def)

lemmas eval_defs = processFrame_def detectSpeech_def updateNoiseFloor_def classify_def
  handleSpeechStart_def handleSpeechEnd_def endSpeech_def forceEndSpeech_def
  handleSilenceTimeout_def speechStartTimer_callback_def speechEndTimer_callback_def
  silenceTimer_callback_def speechStartTimer_fires_def speechEndTimer_fires_def
  silenceTimer_fires_def setTimeout_def js_sub_def reset_def updateConfig_def Let_def

lemma example_vad_eq:
  "example_vad =
     \<lparr> sampleRate = 50, frameSize = 1, energyThreshold = Num (1 / 100),
       speechStartDelay = 300, speechEndDelay = 1000,
       maxChunkDuration = 3000, minChunkDuration = 1000,
       silenceTimeout = 10000, isSpeaking = False, speechStartTime = None,
       speechEndTime = None, lastSpeechTime = None, audioBuffer = [],
       frameBuffer = [], noiseFloor = Num (1 / 1000),
       adaptiveThreshold = Num (1 / 100), speechStartTimer = None,
       speechEndTimer = None, silenceTimer = None \<rparr>"
  by (simp add: example_vad_def example_config_def constructor_def)

lemma confirming_vad_eq:
  "confirming_vad =
     example_vad\<lparr> lastSpeechTime := Some 1000, audioBuffer := [Num 1],
                  speechStartTimer := Some (Pending 1300) \<rparr>"
  unfolding confirming_vad_def
  by (simp add: example_vad_eq eval_defs cong: let_weak_cong)

lemma speaking_vad_eq:
  "speaking_vad =
     example_vad\<lparr> isSpeaking := True, speechStartTime := Some 1300,
                  lastSpeechTime := Some 1300, audioBuffer := [Num 1],
                  speechStartTimer := Some Expired \<rparr>"
  unfolding speaking_vad_def
  by (simp add: confirming_vad_eq example_vad_eq eval_defs cong: let_weak_cong)

lemma ending_vad_eq:
  "ending_vad =
     example_vad\<lparr> isSpeaking := True, speechStartTime := Some 1300,
                  lastSpeechTime := Some 1300, audioBuffer := [Num 1, Num 0],
                  noiseFloor := Num (99 / 100000), adaptiveThreshold := Num (99 / 20000),
                  speechEndTimer := Some (Pending 2330),
                  silenceTimer := Some (Pending 11330) \<rparr>"
  unfolding ending_vad_def
  by (simp add: speaking_vad_eq example_vad_eq eval_defs cong: let_weak_cong)

lemma restarted_vad_eq:
  "restarted_vad =
     example_vad\<lparr> isSpeaking := True, speechStartTime := Some 4300,
                  speechEndTime := Some 4300, lastSpeechTime := Some 1300,
                  noiseFloor := Num (9801 / 10000000),
                  adaptiveThreshold := Num (9801 / 2000000),
                  speechEndTimer := Some (Pending 5000),
                  silenceTimer := Some (Pending 14000) \<rparr>"
  unfolding restarted_vad_def
  by (simp add: speaking_vad_eq example_vad_eq eval_defs cong: let_weak_cong)

lemma adapted_vad_eq:
  "adapted_vad =
     example_vad\<lparr> audioBuffer := [Num (1 / 100)],
                  noiseFloor := Num (109 / 100000),
                  adaptiveThreshold := Num (109 / 20000) \<rparr>"
  unfolding adapted_vad_def
  by (simp add: example_vad_eq eval_defs cong: let_weak_cong)

text \<open>A run is evaluated one action at a time.\<close>

lemma run_Cons_eval:
  assumes "step a s = Some (s1, e1, l1)" and "run as s1 = Some (s2, e2, l2)"
    and "r = Some (s2, e1 @ e2, l1 @ l2)"
  shows "run (a # as) s = r"
  using assms by simp

lemma run_Nil_eval: "run [] s = Some (s, [], [])"
  by simp

lemma run_observed:
  assumes "run acts s = Some (s', evs, seen)" and "r = Some (evs, seen)"
  shows "map_option snd (run acts s) = r"
  using assms by simp


subsection \<open>The adaptive threshold\<close>

lemma loop_noiseFloor:
  assumes "processAudio_loop clock k s evs seen = Some y"
  shows "\<exists>more. snd (snd y) = seen @ more
           \<and> ((\<forall>x\<in>set more. snd x) \<longrightarrow> noiseFloor (fst y) = noiseFloor s)"
  using assms
proof (induction rule: processAudio_loop_induct)
  case (exit clock k s evs seen)
  then show ?case by simp
next
  case (frame clock k s evs seen y fr s1 r)
  from frame(5) obtain more where
    m: "snd (snd y) = (seen @ [(fr, classify s1 fr)]) @ more"
    and n: "(\<forall>x\<in>set more. snd x) \<longrightarrow> noiseFloor (fst y) = noiseFloor (fst r)"
    by blast
  have "classify s1 fr \<Longrightarrow> noiseFloor (fst r) = noiseFloor s"
    by (simp add: frame(3,4) noiseFloor_processFrame updateNoiseFloor_def)
  with m n show ?case by auto
qed

lemma processAudio_noiseFloor:
  assumes "processAudio limit clock d s = Some (Inr (s', evs, seen))"
    and "\<forall>x\<in>set seen. snd x"
  shows "noiseFloor s' = noiseFloor s"
  using loop_noiseFloor [OF processAudio_returned [OF assms(1)]] assms(2) by auto

lemma step_noiseFloor:
  assumes "step a s = Some (s', evs, seen)" and "\<forall>x\<in>set seen. snd x"
  shows "noiseFloor s' = noiseFloor s"
proof (cases a)
  case (ProcessAudio limit clock d)
  with assms show ?thesis
    by (auto dest: processAudio_noiseFloor split: option.splits sum.splits)
next
  case (ProcessFrame now fr)
  with assms show ?thesis
    by (auto simp: Let_def noiseFloor_processFrame updateNoiseFloor_def)
qed (use assms in \<open>auto simp: Let_def\<close>)

lemma run_Cons_Some:
  assumes "run (a # as) s = Some (s', evs, seen)"
  obtains s1 e1 l1 e2 l2 where "step a s = Some (s1, e1, l1)"
    and "run as s1 = Some (s', e2, l2)" and "evs = e1 @ e2" and "seen = l1 @ l2"
  using assms by (auto split: option.splits)

lemma run_noiseFloor:
  assumes "run acts s = Some (s', evs, seen)" and "\<forall>x\<in>set seen. snd x"
  shows "noiseFloor s' = noiseFloor s"
  using assms
proof (induction acts arbitrary: s s' evs seen)
  case Nil
  then show ?case by simp
next
  case (Cons a acts)
  from Cons.prems(1) obtain s1 e1 l1 e2 l2 where
    st: "step a s = Some (s1, e1, l1)" and rn: "run acts s1 = Some (s', e2, l2)"
    and sn: "seen = l1 @ l2"
    by (rule run_Cons_Some)
  from Cons.prems(2) sn have "\<forall>x\<in>set l1. snd x" and "\<forall>x\<in>set l2. snd x" by auto
  with st rn Cons.IH show ?case by (metis step_noiseFloor)
qed

text \<open>
  Claim C6. \<open>updateNoiseFloor\<close> changes nothing when the frame was decided speech;
  when it was decided non-speech, the new noise floor is
  \<open>0.01 * energy + 0.99 * noiseFloor\<close> and the new adaptive threshold is five times
  the new noise floor (for finite values, the reals of the same expressions). The
  same holds of \<open>processFrame\<close>, whose decision is \<open>classify\<close>, and the noise floor at
  the end of a run in which every classified frame was decided speech is the
  noise floor at its start.
\<close>

theorem updateNoiseFloor_ema:
  "updateNoiseFloor energy True s = s
   \<and> noiseFloor (updateNoiseFloor energy False s)
       = js_add (js_mul (Num (1 / 100)) energy) (js_mul (Num (99 / 100)) (noiseFloor s))
   \<and> adaptiveThreshold (updateNoiseFloor energy False s)
       = js_mul (noiseFloor (updateNoiseFloor energy False s)) (Num 5)
   \<and> (noiseFloor s = Num n \<longrightarrow>
        noiseFloor (updateNoiseFloor (Num e) False s) = Num (e / 100 + 99 * n / 100)
        \<and> adaptiveThreshold (updateNoiseFloor (Num e) False s)
            = Num (5 * (e / 100 + 99 * n / 100)))
   \<and> (classify s frame \<longrightarrow>
        noiseFloor (fst (processFrame now frame s)) = noiseFloor s
        \<and> adaptiveThreshold (fst (processFrame now frame s)) = adaptiveThreshold s)
   \<and> (\<not> classify s frame \<longrightarrow>
        noiseFloor (fst (processFrame now frame s))
          = noiseFloor (updateNoiseFloor (calculateEnergy frame) False s)
        \<and> adaptiveThreshold (fst (processFrame now frame s))
          = adaptiveThreshold (updateNoiseFloor (calculateEnergy frame) False s))
   \<and> (run acts s = Some (s', evs, seen) \<and> (\<forall>x\<in>set seen. snd x) \<longrightarrow>
        noiseFloor s' = noiseFloor s)"
proof (intro conjI impI)
  show "updateNoiseFloor energy True s = s"
    by (simp add: updateNoiseFloor_def)
  show "noiseFloor (updateNoiseFloor energy False s)
       = js_add (js_mul (Num (1 / 100)) energy) (js_mul (Num (99 / 100)) (noiseFloor s))"
    by (simp add: updateNoiseFloor_def Let_def js_sub_def)
  show "adaptiveThreshold (updateNoiseFloor energy False s)
       = js_mul (noiseFloor (updateNoiseFloor energy False s)) (Num 5)"
    by (simp add: updateNoiseFloor_def Let_def)
next
  assume "noiseFloor s = Num n"
  then show "noiseFloor (updateNoiseFloor (Num e) False s) = Num (e / 100 + 99 * n / 100)"
    and "adaptiveThreshold (updateNoiseFloor (Num e) False s)
           = Num (5 * (e / 100 + 99 * n / 100))"
    by (simp_all add: updateNoiseFloor_def Let_def js_sub_def)
next
  assume "classify s frame"
  then show "noiseFloor (fst (processFrame now frame s)) = noiseFloor s"
    and "adaptiveThreshold (fst (processFrame now frame s)) = adaptiveThreshold s"
    by (simp_all add: noiseFloor_processFrame adaptiveThreshold_processFrame
        updateNoiseFloor_def)
next
  assume "\<not> classify s frame"
  then show "noiseFloor (fst (processFrame now frame s))
          = noiseFloor (updateNoiseFloor (calculateEnergy frame) False s)"
    and "adaptiveThreshold (fst (processFrame now frame s))
          = adaptiveThreshold (updateNoiseFloor (calculateEnergy frame) False s)"
    by (simp_all add: noiseFloor_processFrame adaptiveThreshold_processFrame)
next
  assume "run acts s = Some (s', evs, seen) \<and> (\<forall>x\<in>set seen. snd x)"
  then show "noiseFloor s' = noiseFloor s"
    using run_noiseFloor by blast
qed

lemma speech_run_example:
  "\<exists>s'. run [ProcessFrame 1000 [Num 1], SpeechStartTimerFires 1300, ProcessFrame 1330 [Num 1]]
          example_vad
        = Some (s', [SpeechStart None], [([Num 1], True), ([Num 1], True)])"
  apply (rule exI)
  apply (rule run_Cons_eval, simp add: example_vad_eq eval_defs cong: let_weak_cong)
   apply (rule run_Cons_eval, simp add: eval_defs cong: let_weak_cong)
    apply (rule run_Cons_eval, simp add: eval_defs cong: let_weak_cong)
     apply (rule run_Nil_eval)
    apply (rule refl)+
  apply simp
  done

theorem updateNoiseFloor_ema_witness:
  "updateNoiseFloor (Num (1 / 20)) True example_vad = example_vad
   \<and> noiseFloor (updateNoiseFloor (Num (1 / 20)) False example_vad) = Num (149 / 100000)
   \<and> adaptiveThreshold (updateNoiseFloor (Num (1 / 20)) False example_vad) = Num (149 / 20000)
   \<and> classify example_vad [Num 1]
   \<and> noiseFloor (fst (processFrame 1000 [Num 1] example_vad)) = Num (1 / 1000)
   \<and> adaptiveThreshold (fst (processFrame 1000 [Num 1] example_vad)) = Num (1 / 100)
   \<and> \<not> classify example_vad [Num 0]
   \<and> noiseFloor (fst (processFrame 1000 [Num 0] example_vad)) = Num (99 / 100000)
   \<and> adaptiveThreshold (fst (processFrame 1000 [Num 0] example_vad)) = Num (99 / 20000)
   \<and> map_option (\<lambda>r. (noiseFloor (fst r), snd (snd r)))
        (run [ProcessFrame 1000 [Num 1], SpeechStartTimerFires 1300, ProcessFrame 1330 [Num 1]]
           example_vad)
      = Some (Num (1 / 1000), [([Num 1], True), ([Num 1], True)])"
proof -
  obtain s' where r: "run [ProcessFrame 1000 [Num 1], SpeechStartTimerFires 1300,
      ProcessFrame 1330 [Num 1]] example_vad
        = Some (s', [SpeechStart None], [([Num 1], True), ([Num 1], True)])"
    using speech_run_example by blast
  have c1: "classify example_vad [Num 1]" and c0: "\<not> classify example_vad [Num 0]"
    by (simp_all add: classify_def detectSpeech_def example_vad_eq)
  have nf: "noiseFloor example_vad = Num (1 / 1000)"
    and at: "adaptiveThreshold example_vad = Num (1 / 100)"
    by (simp_all add: example_vad_eq)
  from updateNoiseFloor_ema [of "Num (1 / 20)" example_vad "1 / 1000" "1 / 20" "[Num 1]" 1000
      "[ProcessFrame 1000 [Num 1], SpeechStartTimerFires 1300, ProcessFrame 1330 [Num 1]]"
      s' "[SpeechStart None]" "[([Num 1], True), ([Num 1], True)]"]
    updateNoiseFloor_ema [of "Num 0" example_vad "1 / 1000" 0 "[Num 0]" 1000 "[]"
      example_vad "[]" "[]"]
    r c1 c0 nf at
  show ?thesis by simp
qed


subsection \<open>Reconfiguration\<close>




subsection \<open>The end of a segment\<close>

text \<open>
  Claim C4. When the offset timer fires while the detector is speaking, a
  \<open>speechEnd\<close> event with the buffered samples, the duration, the start time and the
  reason \<open>silence\<close> is emitted if and only if the duration since the start of the
  segment is at least 1000 ms; in both cases the buffer is emptied and the detector
  is no longer speaking.
\<close>

theorem speechEndTimer_fires_emits:
  assumes "isSpeaking s" and "speechEndTimer s = Some (Pending d)" and "d \<le> now"
    and "minChunkDuration s = 1000"
  shows "speechEndTimer_fires now s =
           (s\<lparr>speechEndTimer := Some Expired, isSpeaking := False, speechEndTime := Some now,
               audioBuffer := [], speechStartTime := None\<rparr>,
            if 1000 \<le> now - the_time (speechStartTime s)
            then [SpeechEnd \<lparr> audio = audioBuffer s,
                               duration = now - the_time (speechStartTime s),
                               timestamp = speechStartTime s,
                               reason = Silence \<rparr>]
            else [])"
  using assms
  by (simp add: speechEndTimer_fires_def speechEndTimer_callback_def endSpeech_def Let_def)

theorem speechEndTimer_fires_emits_witness:
  "isSpeaking ending_vad \<and> speechEndTimer ending_vad = Some (Pending 2330)
   \<and> minChunkDuration ending_vad = 1000
   \<and> snd (speechEndTimer_fires 2330 ending_vad)
       = [SpeechEnd \<lparr> audio = [Num 1, Num 0], duration = 1030, timestamp = Some 1300,
                       reason = Silence \<rparr>]
   \<and> audioBuffer (fst (speechEndTimer_fires 2330 ending_vad)) = []
   \<and> \<not> isSpeaking (fst (speechEndTimer_fires 2330 ending_vad))
   \<and> isSpeaking restarted_vad \<and> speechEndTimer restarted_vad = Some (Pending 5000)
   \<and> snd (speechEndTimer_fires 5000 restarted_vad) = []
   \<and> audioBuffer (fst (speechEndTimer_fires 5000 restarted_vad)) = []
   \<and> \<not> isSpeaking (fst (speechEndTimer_fires 5000 restarted_vad))"
  using speechEndTimer_fires_emits [of ending_vad 2330 2330]
    speechEndTimer_fires_emits [of restarted_vad 5000 5000]
  by (simp add: ending_vad_eq restarted_vad_eq example_vad_eq)

subsection \<open>The maximum duration\<close>

text \<open>
  Claim C3. Whenever the detector is speaking, a segment start is recorded (a
  time, which \<open>Date.now()\<close> never gives as \<open>0\<close>) and the time since reaches
  \<open>maxChunkDuration\<close>, 3000 ms, processing a frame emits a \<open>speechEnd\<close> event with the
  reason \<open>max_duration\<close>, which the rule of the minimum duration, 1000 ms, cannot
  withhold, and then a \<open>speechStart\<close> event; the detector is speaking afterwards, in
  a segment that starts now with an empty buffer.
\<close>

theorem processFrame_max_duration:
  assumes "isSpeaking s" and "speechStartTime s = Some t0" and "t0 \<noteq> 0"
    and "maxChunkDuration s = 3000" and "minChunkDuration s = 1000"
    and "3000 \<le> now - t0"
  shows "snd (processFrame now frame s) =
           [SpeechEnd \<lparr> audio = audioBuffer s @ frame, duration = now - t0,
                         timestamp = Some t0, reason = Max_duration \<rparr>,
            SpeechStart (Some Continued)]
         \<and> isSpeaking (fst (processFrame now frame s))
         \<and> speechStartTime (fst (processFrame now frame s)) = Some now
         \<and> audioBuffer (fst (processFrame now frame s)) = []"
proof -
  define b where "b = classify s frame"
  define s2 where "s2 = (updateNoiseFloor (calculateEnergy frame) b s)
                 \<lparr>audioBuffer := audioBuffer s @ frame\<rparr>"
  define s3 where "s3 = (if b then (if speechEndTimer s \<noteq> None
                                    then s2\<lparr>speechEndTimer := None\<rparr> else s2)
                         else handleSpeechEnd now s2)"
  have pf: "processFrame now frame s
      = (handleSilenceTimeout now b (fst (forceEndSpeech now s3)), snd (forceEndSpeech now s3))"
    using assms by (simp add: processFrame_unfold Let_def b_def s2_def s3_def)
  have s3: "isSpeaking s3" "speechStartTime s3 = Some t0"
    "audioBuffer s3 = audioBuffer s @ frame" "minChunkDuration s3 = 1000"
    using assms by (simp_all add: s3_def s2_def)
  from s3 assms(6) have "minChunkDuration s3 \<le> now - the_time (speechStartTime s3)" by simp
  from forceEndSpeech_speaking [OF s3(1) this] s3 show ?thesis
    by (simp add: pf)
qed

theorem processFrame_max_duration_witness:
  "isSpeaking speaking_vad \<and> speechStartTime speaking_vad = Some 1300
   \<and> maxChunkDuration speaking_vad = 3000 \<and> minChunkDuration speaking_vad = 1000
   \<and> snd (processFrame 4300 [Num 1] speaking_vad)
       = [SpeechEnd \<lparr> audio = [Num 1, Num 1], duration = 3000, timestamp = Some 1300,
                       reason = Max_duration \<rparr>,
          SpeechStart (Some Continued)]
   \<and> isSpeaking (fst (processFrame 4300 [Num 1] speaking_vad))
   \<and> speechStartTime (fst (processFrame 4300 [Num 1] speaking_vad)) = Some 4300
   \<and> audioBuffer (fst (processFrame 4300 [Num 1] speaking_vad)) = []"
  using processFrame_max_duration [of speaking_vad 1300 4300 "[Num 1]"]
  by (simp add: speaking_vad_eq example_vad_eq)


subsection \<open>The frame assembler\<close>

lemma frameSize_constants: "constants s' = constants s \<Longrightarrow> frameSize s' = frameSize s"
  by (simp add: constants_def)

lemma frameSize_processFrame [simp]: "frameSize (fst (processFrame now frame s)) = frameSize s"
  by (rule frameSize_constants) simp

lemma processAudio_loop_returns:
  assumes "0 < frameSize s"
  shows "\<exists>y. processAudio_loop clock k s evs seen = Some y"
  using assms
proof (induction "length (frameBuffer s)" arbitrary: k s evs seen rule: less_induct)
  case less
  show ?case
  proof (cases "frameSize s \<le> length (frameBuffer s)")
    case True
    define fr where "fr = take (frameSize s) (frameBuffer s)"
    define s1 where "s1 = s\<lparr>frameBuffer := drop (frameSize s) (frameBuffer s)\<rparr>"
    define r where "r = processFrame (clock k) fr s1"
    have fb: "frameBuffer (fst r) = drop (frameSize s) (frameBuffer s)"
      and fs: "frameSize (fst r) = frameSize s"
      by (simp_all add: r_def s1_def)
    from True less.prems have "length (frameBuffer (fst r)) < length (frameBuffer s)"
      by (simp add: fb)
    moreover from less.prems have "0 < frameSize (fst r)" by (simp add: fs)
    ultimately have "\<exists>y. processAudio_loop clock (Suc k) (fst r) (evs @ snd r)
        (seen @ [(fr, classify s1 fr)]) = Some y"
      by (rule less.hyps)
    with True show ?thesis
      by (subst processAudio_loop.simps) (simp add: Let_def fr_def s1_def r_def)
  next
    case False
    then show ?thesis
      by (subst processAudio_loop.simps) simp
  qed
qed

lemma processAudio_loop_lossless:
  assumes "processAudio_loop clock k s evs seen = Some y"
  shows "\<exists>more. snd (snd y) = seen @ more
           \<and> concat (map fst more) @ frameBuffer (fst y) = frameBuffer s
           \<and> (\<forall>x\<in>set more. length (fst x) = frameSize s)
           \<and> length (frameBuffer (fst y)) < frameSize s
           \<and> constants (fst y) = constants s"
  using assms
proof (induction rule: processAudio_loop_induct)
  case (exit clock k s evs seen)
  then show ?case by simp
next
  case (frame clock k s evs seen y fr s1 r)
  have fb: "frameBuffer (fst r) = drop (frameSize s) (frameBuffer s)"
    and fs: "frameSize (fst r) = frameSize s"
    and cs: "constants (fst r) = constants s"
    by (simp_all add: frame(3,4))
  from frame(5) obtain more where
    m: "snd (snd y) = (seen @ [(fr, classify s1 fr)]) @ more"
    and c: "concat (map fst more) @ frameBuffer (fst y) = frameBuffer (fst r)"
    and l: "\<forall>x\<in>set more. length (fst x) = frameSize (fst r)"
    and b: "length (frameBuffer (fst y)) < frameSize (fst r)"
    and k: "constants (fst y) = constants (fst r)"
    by blast
  have "length fr = frameSize s"
    using frame(1) by (simp add: frame(2))
  moreover have "concat (map fst ((fr, classify s1 fr) # more)) @ frameBuffer (fst y)
      = frameBuffer s"
    using c by (simp add: fb frame(2))
  ultimately show ?case
    using m l b k by (intro exI [of _ "(fr, classify s1 fr) # more"]) (simp add: fs cs)
qed

lemma processAudio_lossless_call:
  assumes "0 < frameSize s" and "length audioData \<le> limit"
  shows "\<exists>s' evs seen. processAudio limit clock audioData s = Some (Inr (s', evs, seen))
           \<and> concat (map fst seen) @ frameBuffer s' = frameBuffer s @ audioData
           \<and> (\<forall>x\<in>set seen. length (fst x) = frameSize s)
           \<and> length (frameBuffer s') < frameSize s
           \<and> constants s' = constants s"
proof -
  let ?s = "s\<lparr>frameBuffer := frameBuffer s @ audioData\<rparr>"
  from assms(1) have "0 < frameSize ?s" by simp
  then obtain y where y: "processAudio_loop clock 0 ?s [] [] = Some y"
    using processAudio_loop_returns by blast
  from processAudio_loop_lossless [OF y] have
    "concat (map fst (snd (snd y))) @ frameBuffer (fst y) = frameBuffer s @ audioData"
    "\<forall>x\<in>set (snd (snd y)). length (fst x) = frameSize s"
    "length (frameBuffer (fst y)) < frameSize s"
    "constants (fst y) = constants s"
    by auto
  with y assms(2) show ?thesis
    by (cases y) (simp add: processAudio_def)
qed



lemma fed_Cons: "fed (a # as) = fed [a] @ fed as"
  by (cases a) simp_all

lemma fed_append: "fed (as @ bs) = fed as @ fed bs"
proof (induction as)
  case Nil
  then show ?case by simp
next
  case (Cons a as)
  then show ?case by (simp add: fed_Cons [of a "as @ bs"] fed_Cons [of a as])
qed








lemma calculateEnergy_three [simp]:
  "calculateEnergy [Num 1, Num 1, Num 1] = Num 1"
  "calculateEnergy [Num 0, Num 0, Num 0] = Num 0"
  by (simp_all add: calculateEnergy_def upt_rec)



subsection \<open>Samples that are not finite\<close>

lemma js_add_NaN [simp]: "js_add x NaN = NaN"
  by (cases x) simp_all

lemma js_mul_NaN [simp]: "js_mul x NaN = NaN"
  by (cases x) simp_all

lemma calculateEnergy_foldl:
  "calculateEnergy frame =
     js_sqrt (js_div (foldl (\<lambda>sum x. js_add sum (js_mul x x)) (Num 0) frame)
                     (Num (real (length frame))))"
  unfolding calculateEnergy_def
  using foldl_nth [where f = "\<lambda>sum x. js_add sum (js_mul x x)" and a = "Num 0" and xs = frame]
  by simp

lemma squares_from_NaN: "foldl (\<lambda>sum x. js_add sum (js_mul x x)) NaN xs = NaN"
  by (induction xs) simp_all

lemma squares_with_NaN:
  "NaN \<in> set xs \<Longrightarrow> foldl (\<lambda>sum x. js_add sum (js_mul x x)) a xs = NaN"
proof (induction xs arbitrary: a)
  case Nil
  then show ?case by simp
next
  case (Cons x xs)
  show ?case
  proof (cases "x = NaN")
    case True
    then show ?thesis by (simp add: squares_from_NaN)
  next
    case False
    with Cons.prems have "NaN \<in> set xs" by simp
    then show ?thesis by (simp add: Cons.IH)
  qed
qed

lemma calculateEnergy_NaN: "NaN \<in> set frame \<Longrightarrow> calculateEnergy frame = NaN"
  by (simp add: calculateEnergy_foldl squares_with_NaN)

lemma squares_from_PosInf:
  "NaN \<notin> set xs \<Longrightarrow> foldl (\<lambda>sum x. js_add sum (js_mul x x)) PosInf xs = PosInf"
proof (induction xs)
  case Nil
  then show ?case by simp
next
  case (Cons x xs)
  then show ?case by (cases x) simp_all
qed

lemma squares_with_infinity:
  "NaN \<notin> set xs \<Longrightarrow> \<exists>x\<in>set xs. \<not> is_finite x \<Longrightarrow>
   foldl (\<lambda>sum x. js_add sum (js_mul x x)) (Num a) xs = PosInf"
proof (induction xs arbitrary: a)
  case Nil
  then show ?case by simp
next
  case (Cons x xs)
  show ?case
  proof (cases x)
    case (Num b)
    with Cons.prems have "NaN \<notin> set xs" and "\<exists>x\<in>set xs. \<not> is_finite x" by simp_all
    then have "foldl (\<lambda>sum x. js_add sum (js_mul x x)) (Num (a + b * b)) xs = PosInf"
      by (rule Cons.IH)
    with Num show ?thesis by simp
  next
    case PosInf
    with Cons.prems show ?thesis by (simp add: squares_from_PosInf)
  next
    case NegInf
    with Cons.prems show ?thesis by (simp add: squares_from_PosInf)
  next
    case NaN
    with Cons.prems show ?thesis by simp
  qed
qed

lemma calculateEnergy_infinity:
  "NaN \<notin> set frame \<Longrightarrow> \<exists>x\<in>set frame. \<not> is_finite x \<Longrightarrow> calculateEnergy frame = PosInf"
  by (simp add: calculateEnergy_foldl squares_with_infinity)

text \<open>
  Claim C8, as stated, has \<open>processAudio\<close> reject a block with a sample that is not
  finite. The function does not look at the samples and has no \<open>throw\<close> of its own:
  the call on the block of the one sample \<open>NaN\<close> returns, the sample has been framed
  and classified, and the noise floor and the adaptive threshold are \<open>NaN\<close>
  afterwards.
\<close>

theorem processAudio_accepts_NaN:
  "processAudio 125000 (\<lambda>k. 1000) [NaN] example_vad
     = Some (Inr (example_vad\<lparr>audioBuffer := [NaN], noiseFloor := NaN,
                              adaptiveThreshold := NaN\<rparr>,
                  [], [([NaN], False)]))"
  by (simp add: example_vad_eq processAudio_def processAudio_loop.simps eval_defs
      cong: let_weak_cong)

text \<open>
  Claim C8, amended. An input block that contains a sample that is not finite
  (\<open>NaN\<close> or an infinity) is not rejected: when the block and the frame size are
  within the argument limit of the engine and the frame size is positive, the
  call returns, with every sample of the block in the frames it classified or in
  the frame buffer. The values that are not finite reach the energy computation:
  a frame that contains \<open>NaN\<close> has the energy \<open>NaN\<close>, is decided non-speech and makes
  the noise floor and the adaptive threshold \<open>NaN\<close>; a frame that contains an
  infinity and no \<open>NaN\<close> has the energy \<open>+Infinity\<close>.
\<close>

theorem processAudio_validates_nothing:
  "((\<exists>x\<in>set audioData. \<not> is_finite x)
      \<and> 0 < frameSize s \<and> frameSize s \<le> limit \<and> length audioData \<le> limit \<longrightarrow>
      (\<exists>s' evs seen. processAudio limit clock audioData s = Some (Inr (s', evs, seen))
         \<and> concat (map fst seen) @ frameBuffer s' = frameBuffer s @ audioData))
   \<and> (NaN \<in> set frame \<longrightarrow>
        calculateEnergy frame = NaN \<and> \<not> classify s frame
        \<and> noiseFloor (fst (processFrame now frame s)) = NaN
        \<and> adaptiveThreshold (fst (processFrame now frame s)) = NaN)
   \<and> (NaN \<notin> set frame \<and> (\<exists>x\<in>set frame. \<not> is_finite x) \<longrightarrow>
        calculateEnergy frame = PosInf)"
proof (intro conjI impI)
  assume "(\<exists>x\<in>set audioData. \<not> is_finite x)
      \<and> 0 < frameSize s \<and> frameSize s \<le> limit \<and> length audioData \<le> limit"
  then have "0 < frameSize s" and "length audioData \<le> limit" by simp_all
  from processAudio_lossless_call [OF this, of clock]
  show "\<exists>s' evs seen. processAudio limit clock audioData s = Some (Inr (s', evs, seen))
         \<and> concat (map fst seen) @ frameBuffer s' = frameBuffer s @ audioData"
    by blast
next
  assume n: "NaN \<in> set frame"
  then show e: "calculateEnergy frame = NaN" by (rule calculateEnergy_NaN)
  then show c: "\<not> classify s frame" by (simp add: classify_def detectSpeech_def)
  from e c show "noiseFloor (fst (processFrame now frame s)) = NaN"
    by (simp add: noiseFloor_processFrame updateNoiseFloor_def Let_def)
  from e c show "adaptiveThreshold (fst (processFrame now frame s)) = NaN"
    by (simp add: adaptiveThreshold_processFrame updateNoiseFloor_def Let_def)
next
  assume "NaN \<notin> set frame \<and> (\<exists>x\<in>set frame. \<not> is_finite x)"
  then show "calculateEnergy frame = PosInf"
    by (simp add: calculateEnergy_infinity)
qed

theorem processAudio_validates_nothing_witness:
  "(\<exists>x\<in>set [Num 1, PosInf, NaN]. \<not> is_finite x)
   \<and> 0 < frameSize example_vad \<and> frameSize example_vad \<le> 125000
   \<and> length [Num 1, PosInf, NaN] \<le> (125000::nat)
   \<and> map_option (map_sum id (\<lambda>r. concat (map fst (snd (snd r))) @ frameBuffer (fst r)))
        (processAudio 125000 (\<lambda>k. 1000) [Num 1, PosInf, NaN] example_vad)
      = Some (Inr [Num 1, PosInf, NaN])
   \<and> calculateEnergy [Num 1, NaN] = NaN
   \<and> \<not> classify example_vad [Num 1, NaN]
   \<and> noiseFloor (fst (processFrame 1000 [Num 1, NaN] example_vad)) = NaN
   \<and> adaptiveThreshold (fst (processFrame 1000 [Num 1, NaN] example_vad)) = NaN
   \<and> calculateEnergy [Num 1, NegInf] = PosInf"
proof -
  have h: "0 < frameSize example_vad" "frameSize example_vad \<le> 125000"
    by (simp_all add: example_vad_eq)
  from processAudio_validates_nothing
      [of "[Num 1, PosInf, NaN]" example_vad 125000 "\<lambda>k. 1000" "[Num 1, NaN]" 1000]
    processAudio_validates_nothing
      [of "[Num 1, PosInf, NaN]" example_vad 125000 "\<lambda>k. 1000" "[Num 1, NegInf]" 1000]
    h
  show ?thesis by (auto simp: example_vad_eq)
qed

subsection \<open>Reset\<close>

lemma processAudio_constants:
  assumes "processAudio limit clock audioData s = Some (Inr (s', evs, seen))"
  shows "constants s' = constants s"
  using processAudio_loop_lossless [OF processAudio_returned [OF assms]] by auto

lemma step_constants:
  assumes "step a s = Some (s', evs, seen)"
  shows "constants s' = constants s"
proof (cases a)
  case (ProcessAudio limit clock audioData)
  with assms show ?thesis
    by (auto dest: processAudio_constants split: option.splits sum.splits)
qed (use assms in \<open>auto simp: Let_def\<close>)

lemma run_constants:
  assumes "run acts s = Some (s', evs, seen)"
  shows "constants s' = constants s"
  using assms
proof (induction acts arbitrary: s s' evs seen)
  case Nil
  then show ?case by simp
next
  case (Cons a acts)
  from Cons.prems obtain s1 e1 l1 e2 l2 where
    "step a s = Some (s1, e1, l1)" and "run acts s1 = Some (s', e2, l2)"
    by (rule run_Cons_Some)
  with Cons.IH show ?case by (metis step_constants)
qed

lemma reset_unconditional:
  "reset s =
     s\<lparr> speechStartTimer := None, speechEndTimer := None, silenceTimer := None,
        isSpeaking := False, speechStartTime := None, speechEndTime := None,
        lastSpeechTime := None, audioBuffer := [], frameBuffer := [] \<rparr>"
  by (cases s) (simp add: reset_def Let_def)

lemma reset_constructed:
  assumes "constants s = constants (constructor config)"
  shows "reset s = fresh_with_thresholds config s"
  using assms
  by (cases s) (simp add: reset_unconditional fresh_with_thresholds_def constructor_def
      constants_def)

text \<open>
  Claim C2, as stated, makes a detector after \<open>reset()\<close> behave as a fresh one. The
  noise floor and the adaptive threshold are not reset: after one frame at the
  threshold, which lowers them, and \<open>reset()\<close>, the same frame is decided speech and
  a \<open>speechStart\<close> event follows; a fresh detector decides it non-speech and emits
  nothing.
\<close>

theorem reset_keeps_thresholds:
  "map_option snd
     (run [ProcessFrame 2000 [Num (1 / 100)], SpeechStartTimerFires 2300] (reset adapted_vad))
     = Some ([SpeechStart None], [([Num (1 / 100)], True)])
   \<and> map_option snd
     (run [ProcessFrame 2000 [Num (1 / 100)], SpeechStartTimerFires 2300]
        (constructor example_config))
     = Some ([], [([Num (1 / 100)], False)])"
  apply (rule conjI)
   apply (rule run_observed)
    apply (rule run_Cons_eval,
      simp add: adapted_vad_eq example_vad_eq eval_defs cong: let_weak_cong)
     apply (rule run_Cons_eval, simp add: eval_defs cong: let_weak_cong)
      apply (rule run_Nil_eval)
     apply (rule refl)+
   apply simp
  apply (rule run_observed)
   apply (rule run_Cons_eval,
      simp add: example_vad_def [symmetric] example_vad_eq eval_defs cong: let_weak_cong)
    apply (rule run_Cons_eval, simp add: eval_defs cong: let_weak_cong)
     apply (rule run_Nil_eval)
    apply (rule refl)+
  apply simp
  done

text \<open>
  Claim C2, amended. For every detector reached from the constructor by any
  sequence of calls and timer callbacks, \<open>reset()\<close> gives the detector that the
  constructor builds from the current settings, but for the noise floor and the
  adaptive threshold, which keep their values; so every further input has the same
  effect on both, and they are equal outright when the two thresholds have their
  initial values. No timer is pending after \<open>reset()\<close>: a timer callback of before
  does nothing.
\<close>

theorem reset_fresh_except_thresholds:
  assumes "run history (constructor config) = Some (s, evs0, seen0)"
  shows "reset s = fresh_with_thresholds config s
         \<and> run acts (reset s) = run acts (fresh_with_thresholds config s)
         \<and> getStatus (reset s) = getStatus (fresh_with_thresholds config s)
         \<and> (noiseFloor s = Num (1 / 1000) \<and> adaptiveThreshold s = energyThreshold s \<longrightarrow>
              reset s = constructor (config\<lparr> cfg_vadThreshold := energyThreshold s,
                                               cfg_silenceTimeout := silenceTimeout s \<rparr>))
         \<and> speechStartTimer_fires now (reset s) = (reset s, [])
         \<and> speechEndTimer_fires now (reset s) = (reset s, [])
         \<and> silenceTimer_fires now (reset s) = (reset s, [])"
proof -
  from assms have "constants s = constants (constructor config)"
    by (rule run_constants)
  then have eq: "reset s = fresh_with_thresholds config s"
    by (rule reset_constructed)
  have "noiseFloor s = Num (1 / 1000) \<and> adaptiveThreshold s = energyThreshold s \<longrightarrow>
      fresh_with_thresholds config s
        = constructor (config\<lparr> cfg_vadThreshold := energyThreshold s,
                                 cfg_silenceTimeout := silenceTimeout s \<rparr>)"
    by (simp add: fresh_with_thresholds_def constructor_def)
  moreover have "speechStartTimer_fires now (reset s) = (reset s, [])"
    and "speechEndTimer_fires now (reset s) = (reset s, [])"
    and "silenceTimer_fires now (reset s) = (reset s, [])"
    by (simp_all add: reset_unconditional speechStartTimer_fires_def speechEndTimer_fires_def
        silenceTimer_fires_def)
  ultimately show ?thesis
    by (simp add: eq)
qed

lemma adapted_run_example:
  "run [ProcessFrame 1000 [Num (1 / 100)]] (constructor example_config)
     = Some (adapted_vad, [], [([Num (1 / 100)], False)])"
  by (simp add: adapted_vad_def example_vad_def [symmetric] example_vad_eq eval_defs
      cong: let_weak_cong)

theorem reset_fresh_except_thresholds_witness:
  "run [ProcessFrame 1000 [Num (1 / 100)]] (constructor example_config)
     = Some (adapted_vad, [], [([Num (1 / 100)], False)])
   \<and> reset adapted_vad
     = example_vad\<lparr>noiseFloor := Num (109 / 100000), adaptiveThreshold := Num (109 / 20000)\<rparr>
   \<and> run [ProcessFrame 2000 [Num (1 / 100)]] (reset adapted_vad)
     = run [ProcessFrame 2000 [Num (1 / 100)]]
         (example_vad\<lparr>noiseFloor := Num (109 / 100000),
                       adaptiveThreshold := Num (109 / 20000)\<rparr>)
   \<and> speechStartTimer_fires 2300 (reset confirming_vad) = (reset confirming_vad, [])"
proof -
  have c: "run [ProcessFrame 1000 [Num 1]] (constructor example_config)
      = Some (confirming_vad, [], [([Num 1], True)])"
    by (simp add: confirming_vad_def example_vad_def [symmetric] example_vad_eq eval_defs
        cong: let_weak_cong)
  have f: "fresh_with_thresholds example_config adapted_vad
      = example_vad\<lparr>noiseFloor := Num (109 / 100000), adaptiveThreshold := Num (109 / 20000)\<rparr>"
    by (simp add: fresh_with_thresholds_def adapted_vad_eq example_vad_eq example_config_def
        constructor_def)
  note t1 = reset_fresh_except_thresholds [OF adapted_run_example,
      of "[ProcessFrame 2000 [Num (1 / 100)]]" 2300]
  note t2 = reset_fresh_except_thresholds [OF c, of "[]" 2300]
  from t1 have a: "reset adapted_vad
      = example_vad\<lparr>noiseFloor := Num (109 / 100000), adaptiveThreshold := Num (109 / 20000)\<rparr>"
    unfolding f by (rule conjunct1)
  from t1 have b: "run [ProcessFrame 2000 [Num (1 / 100)]] (reset adapted_vad)
     = run [ProcessFrame 2000 [Num (1 / 100)]]
         (example_vad\<lparr>noiseFloor := Num (109 / 100000),
                       adaptiveThreshold := Num (109 / 20000)\<rparr>)"
    unfolding f by blast
  from t2 have d: "speechStartTimer_fires 2300 (reset confirming_vad) = (reset confirming_vad, [])"
    by blast
  from adapted_run_example a b d show ?thesis
    by (intro conjI)
qed


subsection \<open>The silence alarm\<close>

lemma silenceTimer_processFrame:
  "silenceTimer (fst (processFrame now frame s))
     = silenceTimer (handleSilenceTimeout now (classify s frame) s)"
  "lastSpeechTime (fst (processFrame now frame s))
     = lastSpeechTime (handleSilenceTimeout now (classify s frame) s)"
  by (simp_all add: processFrame_unfold handleSilenceTimeout_def Let_def)

lemma endSpeech_events: "SilenceTimeout \<notin> set (snd (endSpeech now r s))"
  by (simp add: endSpeech_def Let_def)

lemma processFrame_events: "SilenceTimeout \<notin> set (snd (processFrame now frame s))"
  by (simp add: processFrame_unfold forceEndSpeech_def endSpeech_events Let_def)

lemma other_timers_alarm:
  "silenceTimer (fst (speechStartTimer_fires now s)) = silenceTimer s"
  "silenceTimer (fst (speechEndTimer_fires now s)) = silenceTimer s"
  "SilenceTimeout \<notin> set (snd (speechStartTimer_fires now s))"
  "SilenceTimeout \<notin> set (snd (speechEndTimer_fires now s))"
  by (simp_all add: speechStartTimer_fires_def speechStartTimer_callback_def
      speechEndTimer_fires_def speechEndTimer_callback_def endSpeech_def Let_def
      split: option.splits timer.splits)

lemma silenceTimer_fires_due:
  assumes "silenceTimer s = Some (Pending d)" and "d \<le> now"
  shows "silenceTimer_fires now s = (s\<lparr>silenceTimer := None\<rparr>, [SilenceTimeout])"
  using assms by (simp add: silenceTimer_fires_def silenceTimer_callback_def)

lemma silenceTimer_fires_idle:
  assumes "silenceTimer s = None \<or> silenceTimer s = Some Expired
           \<or> (\<exists>d. silenceTimer s = Some (Pending d) \<and> now < d)"
  shows "silenceTimer_fires now s = (s, [])"
  using assms by (auto simp: silenceTimer_fires_def)

lemma silenceTimer_fires_alarms:
  "count_list (snd (silenceTimer_fires now s)) SilenceTimeout
     + pending_alarms (fst (silenceTimer_fires now s)) \<le> pending_alarms s"
proof (cases "\<exists>d. silenceTimer s = Some (Pending d) \<and> d \<le> now")
  case True
  then obtain d where "silenceTimer s = Some (Pending d)" and "d \<le> now" by blast
  then show ?thesis
    by (simp add: silenceTimer_fires_due pending_alarms_def)
next
  case False
  then have "silenceTimer_fires now s = (s, [])"
    by (auto simp: silenceTimer_fires_def split: option.splits timer.splits)
  then show ?thesis by simp
qed

lemma step_alarms:
  assumes "timer_callback a" and "step a s = Some (s', evs, seen)"
  shows "count_list evs SilenceTimeout + pending_alarms s' \<le> pending_alarms s"
proof (cases a)
  case (SpeechStartTimerFires now)
  with assms(2) other_timers_alarm(1,3) [of now s] show ?thesis
    by (auto simp: pending_alarms_def Let_def)
next
  case (SpeechEndTimerFires now)
  with assms(2) other_timers_alarm(2,4) [of now s] show ?thesis
    by (auto simp: pending_alarms_def Let_def)
next
  case (SilenceTimerFires now)
  with assms(2) silenceTimer_fires_alarms [of now s] show ?thesis
    by (auto simp: Let_def)
qed (use assms in simp_all)

lemma count_list_append: "count_list (xs @ ys) x = count_list xs x + count_list ys x"
  by (induction xs) simp_all

lemma run_alarms:
  assumes "list_all timer_callback acts" and "run acts s = Some (s', evs, seen)"
  shows "count_list evs SilenceTimeout + pending_alarms s' \<le> pending_alarms s"
  using assms
proof (induction acts arbitrary: s evs seen)
  case Nil
  then show ?case by simp
next
  case (Cons a acts)
  from Cons.prems(2) obtain s1 e1 l1 e2 l2 where
    st: "step a s = Some (s1, e1, l1)" and rn: "run acts s1 = Some (s', e2, l2)"
    and ev: "evs = e1 @ e2"
    by (rule run_Cons_Some)
  from Cons.prems(1) have "timer_callback a" and "list_all timer_callback acts" by simp_all
  with st rn Cons.IH
  have "count_list e1 SilenceTimeout + pending_alarms s1 \<le> pending_alarms s"
    and "count_list e2 SilenceTimeout + pending_alarms s' \<le> pending_alarms s1"
    by (auto dest: step_alarms)
  then show ?case by (simp add: ev count_list_append)
qed


text \<open>
  Claim C1, as stated, has the notification emitted once and not again before the
  next speech frame. The callback clears the timer and the next non-speech frame
  arms it again: in this run the one frame decided speech is the first, the silence
  timer runs at 11030, a silent frame at 11060 arms it again, and it runs a second
  time at 21060.
\<close>

theorem silenceTimeout_repeats:
  "map_option snd
     (run [ProcessFrame 1000 [Num 1], ProcessFrame 1030 [Num 0], SpeechStartTimerFires 1300,
           ProcessFrame 1330 [Num 0], SpeechEndTimerFires 2330, SilenceTimerFires 11030,
           ProcessFrame 11060 [Num 0], SilenceTimerFires 21060] example_vad)
     = Some ([SpeechStart None,
              SpeechEnd \<lparr> audio = [Num 1, Num 0, Num 0], duration = 1030,
                            timestamp = Some 1300, reason = Silence \<rparr>,
              SilenceTimeout, SilenceTimeout],
             [([Num 1], True), ([Num 0], False), ([Num 0], False), ([Num 0], False)])"
  apply (rule run_observed)
   apply (rule run_Cons_eval, simp add: example_vad_eq eval_defs cong: let_weak_cong)
    apply (rule run_Cons_eval, simp add: eval_defs cong: let_weak_cong)
     apply (rule run_Cons_eval, simp add: eval_defs cong: let_weak_cong)
      apply (rule run_Cons_eval, simp add: eval_defs cong: let_weak_cong)
       apply (rule run_Cons_eval, simp add: eval_defs cong: let_weak_cong)
        apply (rule run_Cons_eval, simp add: eval_defs cong: let_weak_cong)
         apply (rule run_Cons_eval, simp add: eval_defs cong: let_weak_cong)
          apply (rule run_Cons_eval, simp add: eval_defs cong: let_weak_cong)
           apply (rule run_Nil_eval)
          apply (rule refl)+
  apply simp
  done

text \<open>
  Claim C1, amended. A frame decided speech records the time of the last speech
  and cancels the silence timer, so that the countdown starts again from zero. A
  frame decided non-speech, once a time of last speech is recorded, arms the
  silence timer for \<open>silenceTimeout\<close> ms after that frame when none is pending, and
  leaves a pending timer as it is. When the timer is due, its callback emits the
  notification once and clears the timer; nothing else emits the notification, so
  that the timer callbacks between two frames emit it at most once. The next
  non-speech frame arms the timer again: in continued silence the notification is
  emitted once for every further \<open>silenceTimeout\<close>, with no speech frame between.
\<close>

theorem silenceTimeout_once_per_arming:
  "(classify s frame \<longrightarrow>
      silenceTimer (fst (processFrame now frame s)) = None
      \<and> lastSpeechTime (fst (processFrame now frame s)) = Some now)
   \<and> (\<not> classify s frame \<and> truthy_time (lastSpeechTime s) \<and> silenceTimer s = None \<longrightarrow>
        silenceTimer (fst (processFrame now frame s))
          = Some (setTimeout now (silenceTimeout s)))
   \<and> (\<not> classify s frame \<and> silenceTimer s = Some t \<longrightarrow>
        silenceTimer (fst (processFrame now frame s)) = Some t)
   \<and> (silenceTimer s = Some (Pending d) \<and> d \<le> now \<longrightarrow>
        silenceTimer_fires now s = (s\<lparr>silenceTimer := None\<rparr>, [SilenceTimeout]))
   \<and> (silenceTimer s = None \<or> (\<exists>d. silenceTimer s = Some (Pending d) \<and> now < d) \<longrightarrow>
        silenceTimer_fires now s = (s, []))
   \<and> SilenceTimeout \<notin> set (snd (processFrame now frame s))
   \<and> SilenceTimeout \<notin> set (snd (speechStartTimer_fires now s))
   \<and> SilenceTimeout \<notin> set (snd (speechEndTimer_fires now s))
   \<and> (list_all timer_callback acts \<and> run acts s = Some (s', evs, seen) \<longrightarrow>
        count_list evs SilenceTimeout \<le> 1)"
proof (intro conjI impI)
  assume "classify s frame"
  then show "silenceTimer (fst (processFrame now frame s)) = None"
    and "lastSpeechTime (fst (processFrame now frame s)) = Some now"
    by (simp_all add: silenceTimer_processFrame handleSilenceTimeout_def Let_def)
next
  assume "\<not> classify s frame \<and> truthy_time (lastSpeechTime s) \<and> silenceTimer s = None"
  then show "silenceTimer (fst (processFrame now frame s))
      = Some (setTimeout now (silenceTimeout s))"
    by (simp add: silenceTimer_processFrame handleSilenceTimeout_def)
next
  assume "\<not> classify s frame \<and> silenceTimer s = Some t"
  then show "silenceTimer (fst (processFrame now frame s)) = Some t"
    by (simp add: silenceTimer_processFrame handleSilenceTimeout_def)
next
  assume "silenceTimer s = Some (Pending d) \<and> d \<le> now"
  then show "silenceTimer_fires now s = (s\<lparr>silenceTimer := None\<rparr>, [SilenceTimeout])"
    by (simp add: silenceTimer_fires_due)
next
  assume "silenceTimer s = None \<or> (\<exists>d. silenceTimer s = Some (Pending d) \<and> now < d)"
  then show "silenceTimer_fires now s = (s, [])"
    by (intro silenceTimer_fires_idle) blast
next
  show "SilenceTimeout \<notin> set (snd (processFrame now frame s))"
    by (rule processFrame_events)
  show "SilenceTimeout \<notin> set (snd (speechStartTimer_fires now s))"
    and "SilenceTimeout \<notin> set (snd (speechEndTimer_fires now s))"
    by (rule other_timers_alarm)+
next
  assume "list_all timer_callback acts \<and> run acts s = Some (s', evs, seen)"
  then have "count_list evs SilenceTimeout + pending_alarms s' \<le> pending_alarms s"
    by (auto dest: run_alarms)
  moreover have "pending_alarms s \<le> 1"
    by (simp add: pending_alarms_def split: option.splits timer.splits)
  ultimately show "count_list evs SilenceTimeout \<le> 1" by simp
qed

lemma alarm_run_example:
  "\<exists>s'. run [SpeechEndTimerFires 2330, SilenceTimerFires 11330, SilenceTimerFires 21330]
          ending_vad
        = Some (s', [SpeechEnd \<lparr> audio = [Num 1, Num 0], duration = 1030,
                                  timestamp = Some 1300, reason = Silence \<rparr>,
                     SilenceTimeout], [])"
  apply (rule exI)
  apply (rule run_Cons_eval,
      simp add: ending_vad_eq example_vad_eq eval_defs cong: let_weak_cong)
   apply (rule run_Cons_eval, simp add: eval_defs cong: let_weak_cong)
    apply (rule run_Cons_eval, simp add: eval_defs cong: let_weak_cong)
     apply (rule run_Nil_eval)
    apply (rule refl)+
  apply simp
  done

theorem silenceTimeout_once_per_arming_witness:
  "classify example_vad [Num 1]
   \<and> silenceTimer (fst (processFrame 1000 [Num 1] example_vad)) = None
   \<and> lastSpeechTime (fst (processFrame 1000 [Num 1] example_vad)) = Some 1000
   \<and> \<not> classify confirming_vad [Num 0] \<and> truthy_time (lastSpeechTime confirming_vad)
   \<and> silenceTimer confirming_vad = None
   \<and> silenceTimer (fst (processFrame 1030 [Num 0] confirming_vad)) = Some (Pending 11030)
   \<and> \<not> classify ending_vad [Num 0] \<and> silenceTimer ending_vad = Some (Pending 11330)
   \<and> silenceTimer (fst (processFrame 1360 [Num 0] ending_vad)) = Some (Pending 11330)
   \<and> silenceTimer_fires 11330 ending_vad
       = (ending_vad\<lparr>silenceTimer := None\<rparr>, [SilenceTimeout])
   \<and> silenceTimer_fires 11329 ending_vad = (ending_vad, [])
   \<and> list_all timer_callback
        [SpeechEndTimerFires 2330, SilenceTimerFires 11330, SilenceTimerFires 21330]
   \<and> map_option (\<lambda>r. count_list (fst (snd r)) SilenceTimeout)
        (run [SpeechEndTimerFires 2330, SilenceTimerFires 11330, SilenceTimerFires 21330]
           ending_vad)
      = Some 1"
proof -
  obtain s' where r: "run [SpeechEndTimerFires 2330, SilenceTimerFires 11330,
      SilenceTimerFires 21330] ending_vad
        = Some (s', [SpeechEnd \<lparr> audio = [Num 1, Num 0], duration = 1030,
                                  timestamp = Some 1300, reason = Silence \<rparr>,
                     SilenceTimeout], [])"
    using alarm_run_example by blast
  have c1: "classify example_vad [Num 1]"
    and c2: "\<not> classify confirming_vad [Num 0]"
    and c3: "\<not> classify ending_vad [Num 0]"
    by (simp_all add: classify_def detectSpeech_def example_vad_eq confirming_vad_eq
        ending_vad_eq)
  have f: "truthy_time (lastSpeechTime confirming_vad)" "silenceTimer confirming_vad = None"
    "silenceTimer ending_vad = Some (Pending 11330)"
    "silenceTimeout confirming_vad = 10000"
    by (simp_all add: example_vad_eq confirming_vad_eq ending_vad_eq)
  note t1 = silenceTimeout_once_per_arming [of example_vad "[Num 1]" 1000]
  note t2 = silenceTimeout_once_per_arming [of confirming_vad "[Num 0]" 1030]
  note t3 = silenceTimeout_once_per_arming [of ending_vad "[Num 0]" 1360 "Pending 11330"]
  note t4 = silenceTimeout_once_per_arming [of ending_vad "[Num 0]" 11330 _ 11330]
  note t5 = silenceTimeout_once_per_arming [of ending_vad "[Num 0]" 11329]
  note t6 = silenceTimeout_once_per_arming [of ending_vad "[Num 0]" 0 _ _
      "[SpeechEndTimerFires 2330, SilenceTimerFires 11330, SilenceTimerFires 21330]" s'
      "[SpeechEnd \<lparr> audio = [Num 1, Num 0], duration = 1030,
                      timestamp = Some 1300, reason = Silence \<rparr>, SilenceTimeout]" "[]"]
  from t1 c1 have a1: "silenceTimer (fst (processFrame 1000 [Num 1] example_vad)) = None"
    and a2: "lastSpeechTime (fst (processFrame 1000 [Num 1] example_vad)) = Some 1000"
    by blast+
  from t2 c2 f have a3: "silenceTimer (fst (processFrame 1030 [Num 0] confirming_vad))
      = Some (Pending 11030)"
    by (simp add: setTimeout_def)
  from t3 c3 f have a4: "silenceTimer (fst (processFrame 1360 [Num 0] ending_vad))
      = Some (Pending 11330)"
    by blast
  from t4 f have a5: "silenceTimer_fires 11330 ending_vad
      = (ending_vad\<lparr>silenceTimer := None\<rparr>, [SilenceTimeout])"
    by simp
  from t5 f have a6: "silenceTimer_fires 11329 ending_vad = (ending_vad, [])"
    by simp
  have a7: "list_all timer_callback
      [SpeechEndTimerFires 2330, SilenceTimerFires 11330, SilenceTimerFires 21330]"
    by simp
  from t6 a7 r have "count_list [SpeechEnd \<lparr> audio = [Num 1, Num 0], duration = 1030,
      timestamp = Some 1300, reason = Silence \<rparr>, SilenceTimeout] SilenceTimeout \<le> 1"
    by blast
  with r have a8: "map_option (\<lambda>r. count_list (fst (snd r)) SilenceTimeout)
        (run [SpeechEndTimerFires 2330, SilenceTimerFires 11330, SilenceTimerFires 21330]
           ending_vad) = Some 1"
    by simp
  from c1 a1 a2 c2 f(1,2) a3 c3 f(3) a4 a5 a6 a7 a8 show ?thesis
    by (intro conjI)
qed

end
